theory Spec2Isabelle
  imports Complex_Main
begin

section \<open>Shared data model\<close>

text \<open>
  The solver keeps its fields in flat \<open>std::vector\<close>s: one flag, one density and one
  mass per cell, and \<open>Q\<close> distribution values per cell at \<open>cellIndex * Q + direction\<close>.
  A \<open>double\<close> is modelled as a \<open>real\<close> (no rounding).
\<close>

text \<open>
  Modelled from the spec: the enumeration \<open>flag_t\<close> is declared in LBDefinitions.hpp,
  which is not among the sources. The code under study compares flags with \<open>FLUID\<close>,
  \<open>INTERFACE\<close> and \<open>EMPTY\<close> only; every other kind (the boundary kinds) is kept
  apart by a number that the code never inspects.
\<close>

datatype flag_t = FLUID | INTERFACE | EMPTY | BOUNDARY nat

type_synonym vec3 = "real \<times> real \<times> real"

type_synonym coord_t = "int \<times> int \<times> int"

text \<open>
  What an execution can end in besides a normal return. \<open>AssertionFailed\<close> is a failed
  \<open>assert\<close> (the program aborts). \<open>OutOfRange\<close> is an access outside a vector
  (undefined behaviour in C++). \<open>NonFinite d\<close> records that the division \<open>d\<close> met a zero
  denominator: IEEE arithmetic yields NaN or an infinity there and the program keeps
  running with it, without any diagnostic; such values are not real numbers, so the
  model follows the execution no further.
\<close>

datatype division =
  TimeRatio | FluidVolume | MedianDensity | LocalTauRatio | TauRatio | FeqRatio | MassRatio

datatype fault = AssertionFailed | OutOfRange | NonFinite division

definition rbind :: "fault + 'a \<Rightarrow> ('a \<Rightarrow> fault + 'b) \<Rightarrow> fault + 'b" where
  "rbind m f = (case m of Inl e \<Rightarrow> Inl e | Inr v \<Rightarrow> f v)"

fun foldM :: "('a \<Rightarrow> 's \<Rightarrow> fault + 's) \<Rightarrow> 'a list \<Rightarrow> 's \<Rightarrow> fault + 's" where
  "foldM f [] s = Inr s"
| "foldM f (x # xs) s = rbind (f x s) (foldM f xs)"

definition fdiv :: "division \<Rightarrow> real \<Rightarrow> real \<Rightarrow> fault + real" where
  "fdiv d a b = (if b = 0 then Inl (NonFinite d) else Inr (a / b))"

definition rd :: "'a list \<Rightarrow> nat \<Rightarrow> fault + 'a" where
  "rd xs i = (if i < length xs then Inr (xs ! i) else Inl OutOfRange)"

definition wr :: "'a list \<Rightarrow> nat \<Rightarrow> 'a \<Rightarrow> fault + 'a list" where
  "wr xs i v = (if i < length xs then Inr (xs[i := v]) else Inl OutOfRange)"

text \<open>
  The collaborators of the two functions that are declared in headers outside the
  sources (LBDefinitions.hpp, LBMHelper.hpp, computeCellValues.hpp, freeSurface.hpp) are
  parameters of the model. \<open>computeVelocity\<close> receives the \<open>Q\<close> distribution values of one
  cell (the C++ passes a pointer to the first of them) and the density; \<open>computeFeq\<close>
  fills an array of \<open>Q\<close> values, given here by index.
\<close>

record externals =
  Q :: nat
  C_S :: real
  LATTICEVELOCITIES :: "nat \<Rightarrow> int \<times> int \<times> int"
  inverseVelocityIndex :: "nat \<Rightarrow> nat"
  indexForCell :: "int \<Rightarrow> int \<Rightarrow> int \<Rightarrow> coord_t \<Rightarrow> int"
  computeVelocity :: "real list \<Rightarrow> real \<Rightarrow> vec3"
  computeFeq :: "real \<Rightarrow> vec3 \<Rightarrow> nat \<Rightarrow> real"
  computeSurfaceNormal ::
    "real list \<Rightarrow> real list \<Rightarrow> flag_t list \<Rightarrow> coord_t \<Rightarrow> real list \<Rightarrow> coord_t \<Rightarrow> vec3"
  computeStressTensor :: "real list \<Rightarrow> (nat \<Rightarrow> real) \<Rightarrow> nat \<Rightarrow> real"
  computeLocalRelaxationTime :: "real \<Rightarrow> real \<Rightarrow> real \<Rightarrow> real"

definition cellAt :: "externals \<Rightarrow> real list \<Rightarrow> nat \<Rightarrow> fault + real list" where
  "cellAt E xs k = (if k + Q E \<le> length xs then Inr (take (Q E) (drop k xs)) else Inl OutOfRange)"

section \<open>The streaming engine (streaming.cpp)\<close>

text \<open>
  Cell indices are C++ \<open>int\<close>s and can be negative (a coordinate next to the halo), so
  the accesses of streaming.cpp are checked on integers. Overflow of \<open>int\<close> is not
  modelled: indices are mathematical integers.
\<close>

definition rdi :: "'a list \<Rightarrow> int \<Rightarrow> fault + 'a" where
  "rdi xs k = (if k < 0 then Inl OutOfRange else rd xs (nat k))"

definition wri :: "'a list \<Rightarrow> int \<Rightarrow> 'a \<Rightarrow> fault + 'a list" where
  "wri xs k v = (if k < 0 then Inl OutOfRange else wr xs (nat k) v)"

definition cellAti :: "externals \<Rightarrow> real list \<Rightarrow> int \<Rightarrow> fault + real list" where
  "cellAti E xs k = (if k < 0 then Inl OutOfRange else cellAt E xs (nat k))"

text \<open>Lines 6-12.\<close>

definition neighbouring_fi_cell_index ::
  "externals \<Rightarrow> int \<Rightarrow> int \<Rightarrow> int \<Rightarrow> nat \<Rightarrow> coord_t \<Rightarrow> int" where
  "neighbouring_fi_cell_index E x y z fi len =
     (case LATTICEVELOCITIES E fi of (vx, vy, vz) \<Rightarrow>
        indexForCell E (x - vx) (y - vy) (z - vz) len)"

text \<open>Lines 27-31: one iteration of the standard streaming loop. The assertion reads
  back the value just written, \<open>v\<close>; assertions are taken to be compiled in (no
  \<open>NDEBUG\<close>).\<close>

definition streamDirection ::
  "externals \<Rightarrow> real list \<Rightarrow> coord_t \<Rightarrow> int \<Rightarrow> int \<Rightarrow> int \<Rightarrow> int \<Rightarrow> nat \<Rightarrow> real list \<Rightarrow>
   fault + real list" where
  "streamDirection E collideField len x y z fieldIndex i streamField =
     (let neighbour = neighbouring_fi_cell_index E x y z i len * int (Q E) in
      rbind (rdi collideField (neighbour + int i)) (\<lambda>v.
      rbind (wri streamField (fieldIndex + int i) v) (\<lambda>streamField'.
        if v \<ge> 0 then Inr streamField' else Inl AssertionFailed)))"

text \<open>Lines 48-61: the test that guards the reconstruction of direction \<open>i\<close>. The
  vector the source calls \<open>invVelocity\<close> is \<open>LATTICEVELOCITIES[i]\<close>.\<close>

definition needsReconstruction ::
  "externals \<Rightarrow> flag_t list \<Rightarrow> coord_t \<Rightarrow> vec3 \<Rightarrow> int \<Rightarrow> int \<Rightarrow> int \<Rightarrow> nat \<Rightarrow> fault + bool" where
  "needsReconstruction E flagField len normal x y z i =
     (case LATTICEVELOCITIES E i of (vx, vy, vz) \<Rightarrow>
      case normal of (n0, n1, n2) \<Rightarrow>
        (let neighFlag = indexForCell E (x + vx) (y + vy) (z + vz) len in
         rbind (rdi flagField neighFlag) (\<lambda>nf.
           let isEmptyAdjacent = (nf = EMPTY);
               dotProduct = n0 * real_of_int vx + n1 * real_of_int vy + n2 * real_of_int vz;
               isNormalDirection = (True \<and> dotProduct > 0)
           in Inr (isEmptyAdjacent \<or> isNormalDirection))))"

text \<open>Lines 61-75: the value written when the test holds.\<close>

definition reconstructedValue ::
  "externals \<Rightarrow> real list \<Rightarrow> real \<Rightarrow> real \<Rightarrow> nat \<Rightarrow> real" where
  "reconstructedValue E cell curDensity c i =
     (let atmosphericPressure = 1;
          velocity = computeVelocity E cell curDensity;
          feq = computeFeq E atmosphericPressure velocity
      in feq (inverseVelocityIndex E i) + feq i - c)"

text \<open>Lines 47-76: one iteration of the second loop over the directions.\<close>

definition reconstructDirection ::
  "externals \<Rightarrow> real list \<Rightarrow> real list \<Rightarrow> flag_t list \<Rightarrow> coord_t \<Rightarrow> vec3 \<Rightarrow>
   int \<Rightarrow> int \<Rightarrow> int \<Rightarrow> int \<Rightarrow> int \<Rightarrow> nat \<Rightarrow> real list \<Rightarrow> fault + real list" where
  "reconstructDirection E collideField density flagField len normal x y z flagIndex fieldIndex i
       streamField =
     rbind (needsReconstruction E flagField len normal x y z i) (\<lambda>b.
       if b then
         rbind (rdi density flagIndex) (\<lambda>curDensity.
         rbind (cellAti E collideField fieldIndex) (\<lambda>cell.
           if inverseVelocityIndex E i < Q E then
             rbind (rdi collideField (fieldIndex + int i)) (\<lambda>c.
               wri streamField (fieldIndex + int (inverseVelocityIndex E i))
                 (reconstructedValue E cell curDensity c i))
           else Inl OutOfRange))
       else Inr streamField)"

text \<open>Lines 21-77: the body of the loop nest for the cell \<open>(x, y, z)\<close>.\<close>

definition streamCell ::
  "externals \<Rightarrow> real list \<Rightarrow> real list \<Rightarrow> real list \<Rightarrow> coord_t \<Rightarrow> flag_t list \<Rightarrow>
   coord_t \<Rightarrow> real list \<Rightarrow> fault + real list" where
  "streamCell E collideField mass density len flagField c streamField =
     (case c of (x, y, z) \<Rightarrow>
       (let flagIndex = indexForCell E x y z len;
            fieldIndex = flagIndex * int (Q E)
        in
        rbind (rdi flagField flagIndex) (\<lambda>fl.
        rbind (if fl = FLUID \<or> fl = INTERFACE then
                 foldM (streamDirection E collideField len x y z fieldIndex) [0 ..< Q E]
                   streamField
               else Inr streamField) (\<lambda>streamed.
          if fl = INTERFACE then
            (let normal = computeSurfaceNormal E collideField density flagField len mass (x, y, z)
             in foldM (reconstructDirection E collideField density flagField len normal x y z
                         flagIndex fieldIndex) [0 ..< Q E] streamed)
          else Inr streamed))))"

text \<open>Lines 18-20: the cells in the order of the loop nest (\<open>z\<close> outermost), the halo
  included.\<close>

definition range0 :: "int \<Rightarrow> int list" where
  "range0 n = map int [0 ..< nat n]"

definition cells :: "coord_t \<Rightarrow> coord_t list" where
  "cells len =
     (case len of (lx, ly, lz) \<Rightarrow>
        concat (map (\<lambda>z. concat (map (\<lambda>y. map (\<lambda>x. (x, y, z)) (range0 (lx + 2)))
                                    (range0 (ly + 2))))
                    (range0 (lz + 2))))"

text \<open>\<open>doStreaming\<close>, with the parameters in the order of streaming.cpp; the result is
  \<open>streamField\<close> after the call. The loop nest is run sequentially.\<close>

definition doStreaming ::
  "externals \<Rightarrow> real list \<Rightarrow> real list \<Rightarrow> real list \<Rightarrow> real list \<Rightarrow> coord_t \<Rightarrow> flag_t list \<Rightarrow>
   fault + real list" where
  "doStreaming E collideField streamField mass density len flagField =
     foldM (streamCell E collideField mass density len flagField) (cells len) streamField"

text \<open>
  Names for the positions and conditions of the statements about \<open>doStreaming\<close>: the
  index \<open>fieldIndex + i\<close> of direction \<open>i\<close> of a cell, the index \<open>neighbour + i\<close> its
  streamed value is read from, the flag of the cell, the test of line 61 for direction
  \<open>i\<close> at the cell (with the cell's surface normal), and whether the second pass
  writes direction \<open>j\<close> of the cell, which it does for \<open>j = inverseVelocityIndex(i)\<close> of
  every direction \<open>i\<close> that passes the test.
\<close>

definition cellSlot :: "externals \<Rightarrow> coord_t \<Rightarrow> coord_t \<Rightarrow> nat \<Rightarrow> int" where
  "cellSlot E len c i = (case c of (x, y, z) \<Rightarrow> indexForCell E x y z len * int (Q E) + int i)"

definition upstreamSlot :: "externals \<Rightarrow> coord_t \<Rightarrow> coord_t \<Rightarrow> nat \<Rightarrow> int" where
  "upstreamSlot E len c i =
     (case c of (x, y, z) \<Rightarrow> neighbouring_fi_cell_index E x y z i len * int (Q E) + int i)"

definition flagOf :: "externals \<Rightarrow> coord_t \<Rightarrow> flag_t list \<Rightarrow> coord_t \<Rightarrow> flag_t" where
  "flagOf E len flagField c = (case c of (x, y, z) \<Rightarrow> flagField ! nat (indexForCell E x y z len))"

definition reconstructs ::
  "externals \<Rightarrow> real list \<Rightarrow> real list \<Rightarrow> real list \<Rightarrow> coord_t \<Rightarrow> flag_t list \<Rightarrow> coord_t \<Rightarrow> nat \<Rightarrow>
   bool" where
  "reconstructs E collideField mass density len flagField c i =
     (case c of (x, y, z) \<Rightarrow>
        needsReconstruction E flagField len
          (computeSurfaceNormal E collideField density flagField len mass c) x y z i = Inr True)"

definition reconstructed ::
  "externals \<Rightarrow> real list \<Rightarrow> real list \<Rightarrow> real list \<Rightarrow> coord_t \<Rightarrow> flag_t list \<Rightarrow> coord_t \<Rightarrow> nat \<Rightarrow>
   bool" where
  "reconstructed E collideField mass density len flagField c j =
     (\<exists>i\<in>{..<Q E}. inverseVelocityIndex E i = j
                   \<and> reconstructs E collideField mass density len flagField c i)"

text \<open>
  The test as the specification words it, for comparison with \<open>reconstructs\<close>: the cell
  adjacent in direction \<open>i\<close> is EMPTY, or the velocity of the inverse direction, the
  negation of \<open>velocity[i]\<close>, has a strictly positive dot product with the surface normal.
\<close>

definition specReconstructs ::
  "externals \<Rightarrow> real list \<Rightarrow> real list \<Rightarrow> real list \<Rightarrow> coord_t \<Rightarrow> flag_t list \<Rightarrow> coord_t \<Rightarrow> nat \<Rightarrow>
   bool" where
  "specReconstructs E collideField mass density len flagField c i =
     (case c of (x, y, z) \<Rightarrow>
      case LATTICEVELOCITIES E i of (vx, vy, vz) \<Rightarrow>
      case computeSurfaceNormal E collideField density flagField len mass c of (n0, n1, n2) \<Rightarrow>
        flagField ! nat (indexForCell E (x + vx) (y + vy) (z + vz) len) = EMPTY
        \<or> n0 * real_of_int (- vx) + n1 * real_of_int (- vy) + n2 * real_of_int (- vz) > 0)"

section \<open>The timestep adapter (timeStep.cpp)\<close>

text \<open>
  The fields \<open>adaptTimestep\<close> receives by reference. \<open>gravitation\<close> is a
  \<open>std::array<double, 3>\<close>.
\<close>

record state =
  distributions :: "real list"
  density :: "real list"
  mass :: "real list"
  flags :: "flag_t list"
  gravitation :: vec3

definition scale3 :: "real \<Rightarrow> vec3 \<Rightarrow> vec3" where
  "scale3 c v = (case v of (vx, vy, vz) \<Rightarrow> (vx * c, vy * c, vz * c))"

definition velocityNorm :: "vec3 \<Rightarrow> real" where
  "velocityNorm v = (case v of (vx, vy, vz) \<Rightarrow> sqrt (vx * vx + vy * vy + vz * vz))"

text \<open>Lines 11-25: one iteration of the reduction loop, and the loop.\<close>

definition maxVelocityStep :: "externals \<Rightarrow> state \<Rightarrow> nat \<Rightarrow> real \<Rightarrow> fault + real" where
  "maxVelocityStep E st i maximumVelocityNorm =
     rbind (rd (flags st) i) (\<lambda>fl.
       if fl \<noteq> FLUID \<and> fl \<noteq> INTERFACE then Inr maximumVelocityNorm
       else
         rbind (rd (density st) i) (\<lambda>curDensity.
         rbind (cellAt E (distributions st) (i * Q E)) (\<lambda>cell.
           Inr (max maximumVelocityNorm
                  (velocityNorm (computeVelocity E cell curDensity))))))"

definition maximumVelocityNorm :: "externals \<Rightarrow> state \<Rightarrow> fault + real" where
  "maximumVelocityNorm E st = foldM (maxVelocityStep E st) [0 ..< length (flags st)] 0"

text \<open>Lines 26-42: the limits and the choice of the new time step; \<open>None\<close> is the
  branch "current time step works".\<close>

definition criticalVelocity :: "externals \<Rightarrow> real" where
  "criticalVelocity E = 0.5 * C_S E * C_S E"

definition multiplier :: real where
  "multiplier = 4 / 5"

definition upperLimit :: "externals \<Rightarrow> real" where
  "upperLimit E = criticalVelocity E / multiplier"

definition lowerLimit :: "externals \<Rightarrow> real" where
  "lowerLimit E = criticalVelocity E * multiplier"

definition newTimeStep :: "externals \<Rightarrow> real \<Rightarrow> real \<Rightarrow> bool \<Rightarrow> real option" where
  "newTimeStep E maxNorm oldTimeStep allowIncrease =
     (if maxNorm > upperLimit E then Some (oldTimeStep * multiplier)
      else if maxNorm < lowerLimit E \<and> allowIncrease then Some (oldTimeStep / multiplier)
      else None)"

text \<open>Lines 45-52.\<close>

definition minimumTau :: "real \<Rightarrow> real" where
  "minimumTau smagorinskyConstant = (if smagorinskyConstant > 0 then 0.5 else 1 / 1.99)"

text \<open>Lines 64-75: one iteration of the second reduction, on the pair
  \<open>(totalFluidVolume, totalMass)\<close>.\<close>

definition totalsStep :: "state \<Rightarrow> nat \<Rightarrow> real \<times> real \<Rightarrow> fault + real \<times> real" where
  "totalsStep st i acc =
     (case acc of (totalFluidVolume, totalMass) \<Rightarrow>
       rbind (rd (flags st) i) (\<lambda>fl.
         if fl = FLUID then
           rbind (rd (density st) i) (\<lambda>d. Inr (totalFluidVolume + 1, totalMass + d))
         else if fl = INTERFACE then
           rbind (rd (mass st) i) (\<lambda>m.
           rbind (rd (density st) i) (\<lambda>d.
           rbind (fdiv FluidVolume m d) (\<lambda>q.
             Inr (totalFluidVolume + q, totalMass + m))))
         else Inr (totalFluidVolume, totalMass)))"

definition totals :: "state \<Rightarrow> fault + real \<times> real" where
  "totals st = foldM (totalsStep st) [0 ..< length (flags st)] (0, 0)"

text \<open>Lines 104-118.\<close>

definition tauRatioOf ::
  "externals \<Rightarrow> real list \<Rightarrow> nat \<Rightarrow> (nat \<Rightarrow> real) \<Rightarrow> (nat \<Rightarrow> real) \<Rightarrow>
   real \<Rightarrow> real \<Rightarrow> real \<Rightarrow> real \<Rightarrow> fault + real" where
  "tauRatioOf E ds fieldIndex oldFeq newFeq timeRatio oldTau newTau smagorinskyConstant =
     (if smagorinskyConstant > 0 then
        (let oldStress = computeStressTensor E ds oldFeq fieldIndex;
             oldLocalTau = computeLocalRelaxationTime E oldTau oldStress smagorinskyConstant;
             newStress = computeStressTensor E ds newFeq fieldIndex;
             newLocalTau = computeLocalRelaxationTime E newTau newStress smagorinskyConstant
         in rbind (fdiv LocalTauRatio newLocalTau oldLocalTau) (\<lambda>q. Inr (timeRatio * q)))
      else rbind (fdiv TauRatio newTau oldTau) (\<lambda>q. Inr (timeRatio * q)))"

text \<open>Lines 119-124: one iteration of the loop over the directions.\<close>

definition rescaleDistribution ::
  "nat \<Rightarrow> real \<Rightarrow> (nat \<Rightarrow> real) \<Rightarrow> (nat \<Rightarrow> real) \<Rightarrow> nat \<Rightarrow> real list \<Rightarrow> fault + real list" where
  "rescaleDistribution fieldIndex tauRatio oldFeq newFeq j ds =
     rbind (fdiv FeqRatio (newFeq j) (oldFeq j)) (\<lambda>feqRatio.
     rbind (rd ds (fieldIndex + j)) (\<lambda>f.
       wr ds (fieldIndex + j) (feqRatio * (oldFeq j + tauRatio * (f - oldFeq j)))))"

text \<open>Lines 84-131: the body of the rescaling loop for cell \<open>i\<close>.\<close>

definition rescaleCell ::
  "externals \<Rightarrow> real \<Rightarrow> real \<Rightarrow> real \<Rightarrow> real \<Rightarrow> real \<Rightarrow> nat \<Rightarrow> state \<Rightarrow> fault + state" where
  "rescaleCell E timeRatio medianDensity oldTau newTau smagorinskyConstant i st =
     rbind (rd (flags st) i) (\<lambda>fl.
       if fl \<noteq> FLUID \<and> fl \<noteq> INTERFACE then Inr st
       else
         (let fieldIndex = i * Q E in
          rbind (rd (density st) i) (\<lambda>oldDensity.
          let newDensity = timeRatio * (oldDensity - medianDensity) + medianDensity in
          rbind (cellAt E (distributions st) fieldIndex) (\<lambda>cell.
          let oldVelocity = computeVelocity E cell oldDensity;
              newVelocity = scale3 timeRatio oldVelocity;
              oldFeq = computeFeq E oldDensity oldVelocity;
              newFeq = computeFeq E newDensity newVelocity
          in
          rbind (tauRatioOf E (distributions st) fieldIndex oldFeq newFeq timeRatio oldTau newTau
                   smagorinskyConstant) (\<lambda>tauRatio.
          rbind (foldM (rescaleDistribution fieldIndex tauRatio oldFeq newFeq) [0 ..< Q E]
                   (distributions st)) (\<lambda>ds'.
          rbind (if fl = INTERFACE then
                   rbind (rd (mass st) i) (\<lambda>m.
                   rbind (fdiv MassRatio oldDensity newDensity) (\<lambda>q. wr (mass st) i (m * q)))
                 else Inr (mass st)) (\<lambda>mass'.
          rbind (wr (density st) i newDensity) (\<lambda>density'.
            Inr (st\<lparr>distributions := ds', density := density', mass := mass'\<rparr>)))))))))"

text \<open>
  \<open>adaptTimestep\<close>, with the parameters in the order of timeStep.cpp (the fields
  gathered in the state). The result is the state after the call and the returned pair
  of tau and time step. The message printed on refusal is not modelled.
\<close>

definition adaptTimestep ::
  "externals \<Rightarrow> state \<Rightarrow> real \<Rightarrow> real \<Rightarrow> real \<Rightarrow> bool \<Rightarrow> fault + state \<times> real \<times> real" where
  "adaptTimestep E st oldTimeStep oldTau smagorinskyConstant allowIncrease =
     rbind (maximumVelocityNorm E st) (\<lambda>maxNorm.
       case newTimeStep E maxNorm oldTimeStep allowIncrease of
         None \<Rightarrow> Inr (st, oldTau, oldTimeStep)
       | Some newStep \<Rightarrow>
           rbind (fdiv TimeRatio newStep oldTimeStep) (\<lambda>timeRatio.
             let newTau = timeRatio * (oldTau - 0.5) + 0.5 in
             if newTau \<le> minimumTau smagorinskyConstant then Inr (st, oldTau, oldTimeStep)
             else
               (let st1 = st\<lparr>gravitation := scale3 (timeRatio * timeRatio) (gravitation st)\<rparr> in
                rbind (totals st1) (\<lambda>(totalFluidVolume, totalMass).
                rbind (fdiv MedianDensity totalFluidVolume totalMass) (\<lambda>medianDensity.
                rbind (foldM (rescaleCell E timeRatio medianDensity oldTau newTau
                                smagorinskyConstant)
                         [0 ..< length (density st1)] st1) (\<lambda>st2.
                  Inr (st2, newTau, newStep)))))))"

text \<open>
  The quantity the specification calls the total system mass, in its words: the sum of
  the density over the FLUID cells plus the sum of the mass over the INTERFACE cells.
\<close>

definition systemMass :: "state \<Rightarrow> real" where
  "systemMass st =
     (\<Sum>i<length (flags st).
        if flags st ! i = FLUID then density st ! i
        else if flags st ! i = INTERFACE then mass st ! i else 0)"

section \<open>An instance of the collaborators\<close>

text \<open>
  To run the model on concrete fields the parameters need values. The instance is a
  lattice of three velocities along the x axis (rest, +x, -x) with the weights 2/3, 1/6,
  1/6 and the speed of sound \<open>1 / sqrt 3\<close>, the row-major cell index over the grid with
  its halo, the velocity as first moment over density, the second-order equilibrium, a
  surface normal from the difference of the masses of the two x-neighbours, and a stress
  and a local relaxation time that are simple functions of the non-equilibrium parts.
\<close>

definition lineVelocities :: "nat \<Rightarrow> int \<times> int \<times> int" where
  "lineVelocities i = (if i = 1 then (1, 0, 0) else if i = 2 then (- 1, 0, 0) else (0, 0, 0))"

definition lineInverse :: "nat \<Rightarrow> nat" where
  "lineInverse i = (if i = 1 then 2 else if i = 2 then 1 else i)"

definition rowMajorIndex :: "int \<Rightarrow> int \<Rightarrow> int \<Rightarrow> coord_t \<Rightarrow> int" where
  "rowMajorIndex x y z len =
     (case len of (lx, ly, lz) \<Rightarrow> z * ((lx + 2) * (ly + 2)) + y * (lx + 2) + x)"

definition lineWeight :: "nat \<Rightarrow> real" where
  "lineWeight i = (if i = 0 then 2 / 3 else 1 / 6)"

definition momentVelocity :: "real list \<Rightarrow> real \<Rightarrow> vec3" where
  "momentVelocity cell rho =
     (case cell of [f0, f1, f2] \<Rightarrow> ((f1 - f2) / rho, 0, 0) | _ \<Rightarrow> (0, 0, 0))"

definition lineFeq :: "real \<Rightarrow> vec3 \<Rightarrow> nat \<Rightarrow> real" where
  "lineFeq rho u j =
     (case u of (ux, uy, uz) \<Rightarrow>
        (let cu = real_of_int (fst (lineVelocities j)) * ux in
         lineWeight j * rho * (1 + 3 * cu + 9 / 2 * cu * cu - 3 / 2 * (ux * ux + uy * uy + uz * uz))))"

definition massAt :: "real list \<Rightarrow> int \<Rightarrow> real" where
  "massAt ms k = (if 0 \<le> k \<and> k < int (length ms) then ms ! nat k else 0)"

definition massNormal ::
  "real list \<Rightarrow> real list \<Rightarrow> flag_t list \<Rightarrow> coord_t \<Rightarrow> real list \<Rightarrow> coord_t \<Rightarrow> vec3" where
  "massNormal collideField dens flagField len ms c =
     (case c of (x, y, z) \<Rightarrow>
        ((massAt ms (rowMajorIndex (x - 1) y z len) - massAt ms (rowMajorIndex (x + 1) y z len)) / 2,
         0, 0))"

definition lineStress :: "real list \<Rightarrow> (nat \<Rightarrow> real) \<Rightarrow> nat \<Rightarrow> real" where
  "lineStress ds feq k = abs (massAt ds (int k + 1) - feq 1) + abs (massAt ds (int k + 2) - feq 2)"

definition lineLocalTau :: "real \<Rightarrow> real \<Rightarrow> real \<Rightarrow> real" where
  "lineLocalTau tau stress smagorinskyConstant = tau + smagorinskyConstant * stress"

definition lineLattice :: externals where
  "lineLattice =
     \<lparr>Q = 3, C_S = 1 / sqrt 3, LATTICEVELOCITIES = lineVelocities,
      inverseVelocityIndex = lineInverse, indexForCell = rowMajorIndex,
      computeVelocity = momentVelocity, computeFeq = lineFeq,
      computeSurfaceNormal = massNormal, computeStressTensor = lineStress,
      computeLocalRelaxationTime = lineLocalTau\<rparr>"

text \<open>States for evaluating \<open>adaptTimestep\<close>: one FLUID cell at rest with density 2;
  one INTERFACE cell at rest with density 2 and mass 1; one FLUID cell of density 1 moving
  with velocity 2/5; a grid without FLUID and INTERFACE cells.\<close>

definition restingCell :: state where
  "restingCell =
     \<lparr>distributions = [4 / 3, 1 / 3, 1 / 3], density = [2], mass = [0], flags = [FLUID],
      gravitation = (0, 0, - 1)\<rparr>"

definition interfaceCell :: state where
  "interfaceCell =
     \<lparr>distributions = [4 / 3, 1 / 3, 1 / 3], density = [2], mass = [1], flags = [INTERFACE],
      gravitation = (0, 0, - 1)\<rparr>"

definition movingCell :: state where
  "movingCell =
     \<lparr>distributions = [1 / 2, 9 / 20, 1 / 20], density = [1], mass = [0], flags = [FLUID],
      gravitation = (0, 0, - 1)\<rparr>"

definition emptyRoom :: state where
  "emptyRoom =
     \<lparr>distributions = [0, 0, 0, 0, 0, 0], density = [0, 0], mass = [0, 0],
      flags = [EMPTY, BOUNDARY 0], gravitation = (0, 0, - 1)\<rparr>"

text \<open>Two FLUID cells of densities 0.9 and 1.1 and an INTERFACE cell of density 1 and
  mass 1/2, all at rest and in equilibrium; one FLUID cell of density 1 whose velocity
  is \<open>sqrt (2/3)\<close>, where the equilibrium of the rest direction vanishes.\<close>

definition balancedCells :: state where
  "balancedCells =
     \<lparr>distributions = [3 / 5, 3 / 20, 3 / 20, 11 / 15, 11 / 60, 11 / 60, 2 / 3, 1 / 6, 1 / 6],
      density = [9 / 10, 11 / 10, 1], mass = [0, 0, 1 / 2], flags = [FLUID, FLUID, INTERFACE],
      gravitation = (0, 0, - 1)\<rparr>"

definition fastCell :: state where
  "fastCell =
     \<lparr>distributions = [1 - sqrt (2 / 3), sqrt (2 / 3), 0], density = [1], mass = [0],
      flags = [FLUID], gravitation = (0, 0, - 1)\<rparr>"

text \<open>One INTERFACE cell at rest with density 1 and no mass: both totals of the second
  reduction are 0.\<close>

definition masslessInterfaceCell :: state where
  "masslessInterfaceCell =
     \<lparr>distributions = [2 / 3, 1 / 6, 1 / 6], density = [1], mass = [0], flags = [INTERFACE],
      gravitation = (0, 0, - 1)\<rparr>"

text \<open>The state that \<open>adaptTimestep\<close> makes of the moving cell when the time step
  shrinks from 1 to 0.8 (with \<open>oldTau = 1\<close>).\<close>

definition movingCellRescaled :: state where
  "movingCellRescaled =
     \<lparr>distributions = [497789 / 890625, 1193114 / 3140625, 2852 / 46875], density = [1],
      mass = [0], flags = [FLUID], gravitation = (0, 0, - (16 / 25))\<rparr>"

text \<open>The states that \<open>adaptTimestep\<close> makes of the resting, the interface and the
  balanced cells when the time step grows from 1 to 1.25 (with \<open>oldTau = 1\<close>).\<close>

definition restingCellRescaled :: state where
  "restingCellRescaled =
     \<lparr>distributions = [19 / 12, 19 / 48, 19 / 48], density = [19 / 8], mass = [0],
      flags = [FLUID], gravitation = (0, 0, - (25 / 16))\<rparr>"

definition interfaceCellRescaled :: state where
  "interfaceCellRescaled =
     \<lparr>distributions = [19 / 12, 19 / 48, 19 / 48], density = [19 / 8], mass = [16 / 19],
      flags = [INTERFACE], gravitation = (0, 0, - (25 / 16))\<rparr>"

definition balancedCellsRescaled :: state where
  "balancedCellsRescaled =
     \<lparr>distributions = [7 / 12, 7 / 48, 7 / 48, 3 / 4, 3 / 16, 3 / 16, 2 / 3, 1 / 6, 1 / 6],
      density = [7 / 8, 9 / 8, 1], mass = [0, 0, 1 / 2], flags = [FLUID, FLUID, INTERFACE],
      gravitation = (0, 0, - (25 / 16))\<rparr>"

text \<open>
  Fields for evaluating \<open>doStreaming\<close>: a channel of 3 by 1 by 1 cells inside its halo
  (45 cells, row-major). The cell (1,1,1) is FLUID, (2,1,1) is INTERFACE with half the
  mass, (3,1,1) is EMPTY, every other cell is a boundary cell. \<open>channelStreamed\<close> is the
  stream field that \<open>doStreaming\<close> makes of a zero field. \<open>channelCollideStale\<close> differs
  from \<open>channelCollide\<close> in one value of the EMPTY cell, which is negative.
\<close>

definition channel :: coord_t where
  "channel = (3, 1, 1)"

definition channelFlags :: "flag_t list" where
  "channelFlags =
     replicate 21 (BOUNDARY 0) @ [FLUID, INTERFACE, EMPTY] @ replicate 21 (BOUNDARY 0)"

definition channelMass :: "real list" where
  "channelMass = replicate 21 0 @ [1, 1 / 2, 0] @ replicate 21 0"

definition channelDensity :: "real list" where
  "channelDensity = replicate 45 1"

definition channelCollide :: "real list" where
  "channelCollide =
     replicate 63 0 @ [2 / 3, 1 / 6, 1 / 6, 3 / 5, 1 / 4, 3 / 20, 0, 0, 0] @ replicate 63 0"

definition channelCollideStale :: "real list" where
  "channelCollideStale =
     replicate 63 0 @ [2 / 3, 1 / 6, 1 / 6, 3 / 5, 1 / 4, 3 / 20, 0, 0, - 1] @ replicate 63 0"

definition channelStreamed :: "real list" where
  "channelStreamed =
     (replicate 135 0)[63 := 2 / 3, 64 := 0, 65 := 3 / 20, 66 := 3 / 5, 67 := 1 / 6, 68 := 7 / 75]"

section \<open>Basic facts about the result type and the loops\<close>

lemma rbind_Inl [simp]: "rbind (Inl e) f = Inl e"
  by (simp add: rbind_def)

lemma rbind_Inr [simp]: "rbind (Inr v) f = f v"
  by (simp add: rbind_def)

lemma rbind_eq_Inr: "rbind m f = Inr y \<longleftrightarrow> (\<exists>v. m = Inr v \<and> f v = Inr y)"
  by (cases m) simp_all

lemma foldM_append: "foldM f (xs @ ys) s = rbind (foldM f xs s) (foldM f ys)"
  by (induction xs arbitrary: s) (simp_all add: rbind_def split: sum.splits)

lemma foldM_snoc: "foldM f (xs @ [x]) s = rbind (foldM f xs s) (f x)"
  by (simp add: foldM_append rbind_def split: sum.splits)

lemma foldM_skip: "(\<And>x. x \<in> set xs \<Longrightarrow> f x s = Inr s) \<Longrightarrow> foldM f xs s = Inr s"
  by (induction xs) simp_all

lemma rd_eq_Inr: "rd xs i = Inr v \<longleftrightarrow> i < length xs \<and> v = xs ! i"
  by (auto simp: rd_def)

lemma wr_eq_Inr: "wr xs i v = Inr ys \<longleftrightarrow> i < length xs \<and> ys = xs[i := v]"
  by (auto simp: wr_def)

lemma fdiv_eq_Inr: "fdiv d a b = Inr q \<longleftrightarrow> b \<noteq> 0 \<and> q = a / b"
  by (auto simp: fdiv_def)

lemma cellAt_eq_Inr:
  "cellAt E xs k = Inr c \<longleftrightarrow> k + Q E \<le> length xs \<and> c = take (Q E) (drop k xs)"
  by (auto simp: cellAt_def)

section \<open>Evaluating the instance\<close>

lemma lineLattice_simps:
  "Q lineLattice = 3" "C_S lineLattice = 1 / sqrt 3"
  "LATTICEVELOCITIES lineLattice = lineVelocities"
  "inverseVelocityIndex lineLattice = lineInverse" "indexForCell lineLattice = rowMajorIndex"
  "computeVelocity lineLattice = momentVelocity" "computeFeq lineLattice = lineFeq"
  "computeSurfaceNormal lineLattice = massNormal" "computeStressTensor lineLattice = lineStress"
  "computeLocalRelaxationTime lineLattice = lineLocalTau"
  by (simp_all add: lineLattice_def)

lemma criticalVelocity_lineLattice: "criticalVelocity lineLattice = 1 / 6"
  by (simp add: criticalVelocity_def lineLattice_simps)

lemma velocityNorm_x: "velocityNorm (vx, 0, 0) = \<bar>vx\<bar>"
  by (simp add: velocityNorm_def)

lemmas adapt_eval =
  maximumVelocityNorm_def maxVelocityStep_def newTimeStep_def upperLimit_def lowerLimit_def
  criticalVelocity_lineLattice multiplier_def fdiv_def minimumTau_def totals_def totalsStep_def
  rescaleCell_def rescaleDistribution_def tauRatioOf_def rd_def wr_def cellAt_def scale3_def
  lineLattice_simps momentVelocity_def lineFeq_def lineWeight_def lineVelocities_def
  velocityNorm_x Let_def upt_conv_Cons

lemma maximumVelocityNorm_restingCell: "maximumVelocityNorm lineLattice restingCell = Inr 0"
  by (simp add: adapt_eval restingCell_def)

lemma maximumVelocityNorm_movingCell: "maximumVelocityNorm lineLattice movingCell = Inr (2 / 5)"
  by (simp add: adapt_eval movingCell_def)

lemma restingCell_run:
  "adaptTimestep lineLattice restingCell 1 1 0 True = Inr (restingCellRescaled, 9 / 8, 5 / 4)"
  by (simp add: adaptTimestep_def maximumVelocityNorm_restingCell)
     (simp add: adapt_eval restingCell_def restingCellRescaled_def)

lemma movingCell_run:
  "adaptTimestep lineLattice movingCell 1 1 0 True = Inr (movingCellRescaled, 9 / 10, 4 / 5)"
  by (simp add: adaptTimestep_def maximumVelocityNorm_movingCell)
     (simp add: adapt_eval movingCell_def movingCellRescaled_def)

section \<open>The timestep adapter: decision and refusal\<close>

lemma maximumVelocityNorm_no_cells:
  assumes "FLUID \<notin> set (flags st)" "INTERFACE \<notin> set (flags st)"
  shows "maximumVelocityNorm E st = Inr 0"
  unfolding maximumVelocityNorm_def
proof (rule foldM_skip)
  fix i assume "i \<in> set [0 ..< length (flags st)]"
  then have "i < length (flags st)" by simp
  then have "flags st ! i \<in> set (flags st)" by simp
  with assms have "flags st ! i \<noteq> FLUID \<and> flags st ! i \<noteq> INTERFACE" by metis
  with \<open>i < length (flags st)\<close> show "maxVelocityStep E st i 0 = Inr 0"
    by (simp add: maxVelocityStep_def rd_def)
qed

lemma totals_no_cells:
  assumes "FLUID \<notin> set (flags st)" "INTERFACE \<notin> set (flags st)"
  shows "totals st = Inr (0, 0)"
  unfolding totals_def
proof (rule foldM_skip)
  fix i assume "i \<in> set [0 ..< length (flags st)]"
  then have "i < length (flags st)" by simp
  then have "flags st ! i \<in> set (flags st)" by simp
  with assms have "flags st ! i \<noteq> FLUID \<and> flags st ! i \<noteq> INTERFACE" by metis
  with \<open>i < length (flags st)\<close> show "totalsStep st i (0, 0) = Inr (0, 0)"
    by (simp add: totalsStep_def rd_def)
qed

lemma maxVelocity_loop:
  assumes "foldM (maxVelocityStep E st) [0 ..< n] 0 = Inr m"
  shows "m = Max (insert 0
           ((\<lambda>i. velocityNorm (computeVelocity E (take (Q E) (drop (i * Q E) (distributions st)))
                                  (density st ! i)))
            ` {i. i < n \<and> (flags st ! i = FLUID \<or> flags st ! i = INTERFACE)}))"
  using assms
proof (induction n arbitrary: m)
  case 0
  then show ?case by simp
next
  case (Suc n)
  let ?norm = "\<lambda>i. velocityNorm (computeVelocity E (take (Q E) (drop (i * Q E) (distributions st)))
                                  (density st ! i))"
  let ?act = "\<lambda>i. flags st ! i = FLUID \<or> flags st ! i = INTERFACE"
  from Suc.prems obtain m1 where
    a: "foldM (maxVelocityStep E st) [0 ..< n] 0 = Inr m1" and
    b: "maxVelocityStep E st n m1 = Inr m"
    by (auto simp: foldM_snoc rbind_eq_Inr)
  note ih = Suc.IH [OF a]
  have fin: "finite (insert 0 (?norm ` {i. i < n \<and> ?act i}))" by simp
  show ?case
  proof (cases "?act n")
    case False
    then have "{i. i < Suc n \<and> ?act i} = {i. i < n \<and> ?act i}"
      by (auto simp: less_Suc_eq)
    moreover from b False have "m = m1"
      by (auto simp: maxVelocityStep_def rbind_eq_Inr rd_eq_Inr)
    ultimately show ?thesis using ih by simp
  next
    case True
    then have s: "{i. i < Suc n \<and> ?act i} = insert n {i. i < n \<and> ?act i}"
      by (auto simp: less_Suc_eq)
    from b True have "m = max m1 (?norm n)"
      by (auto simp: maxVelocityStep_def rbind_eq_Inr rd_eq_Inr cellAt_eq_Inr)
    also have "\<dots> = Max (insert (?norm n) (insert 0 (?norm ` {i. i < n \<and> ?act i})))"
      using fin ih by (simp add: max.commute)
    finally show ?thesis unfolding s by (simp add: insert_commute)
  qed
qed

lemma adaptTimestep_unchanged_or_new:
  assumes "maximumVelocityNorm E st = Inr maxNorm"
    and "newTimeStep E maxNorm oldTimeStep allowIncrease = Some newStep"
    and "adaptTimestep E st oldTimeStep oldTau smagorinskyConstant allowIncrease
           = Inr (st', tau', step')"
  shows "step' = newStep \<or> (st' = st \<and> tau' = oldTau \<and> step' = oldTimeStep)"
  using assms
  by (auto simp: adaptTimestep_def rbind_eq_Inr Let_def split: if_splits prod.splits)

text \<open>
  C4. Whenever \<open>adaptTimestep\<close> computes a candidate \<open>newTau\<close> (the velocity loop
  completes, a new time step is chosen and the old time step is not zero, so that the
  ratio of the two is a number) and \<open>newTau \<le> minimumTau\<close>, with \<open>minimumTau = 0.5\<close> for a
  positive Smagorinsky constant and \<open>1 / 1.99\<close> otherwise, the call returns exactly
  \<open>(oldTau, oldTimeStep)\<close> and the state it was given: distributions, density, mass, flags
  and gravitation are unchanged.
\<close>

theorem refusal_returns_old_pair_and_state:
  assumes "maximumVelocityNorm E st = Inr maxNorm"
    and "newTimeStep E maxNorm oldTimeStep allowIncrease = Some newStep"
    and "oldTimeStep \<noteq> 0"
    and "newStep / oldTimeStep * (oldTau - 0.5) + 0.5
           \<le> (if smagorinskyConstant > 0 then 0.5 else 1 / 1.99)"
  shows "adaptTimestep E st oldTimeStep oldTau smagorinskyConstant allowIncrease
           = Inr (st, oldTau, oldTimeStep)"
  using assms by (simp add: adaptTimestep_def fdiv_def minimumTau_def)

text \<open>The resting cell with \<open>oldTau = 0.502\<close> and no turbulence model: the velocity is
  zero, the time step may grow to 1.25, the candidate tau 0.5025 is below 1/1.99.\<close>

theorem refusal_returns_old_pair_and_state_witness:
  "maximumVelocityNorm lineLattice restingCell = Inr 0
   \<and> newTimeStep lineLattice 0 1 True = Some (5 / 4)
   \<and> adaptTimestep lineLattice restingCell 1 (502 / 1000) 0 True
       = Inr (restingCell, 502 / 1000, 1)"
proof -
  have n: "newTimeStep lineLattice 0 1 True = Some (5 / 4)"
    by (simp add: adapt_eval)
  have "adaptTimestep lineLattice restingCell 1 (502 / 1000) 0 True
          = Inr (restingCell, 502 / 1000, 1)"
    by (rule refusal_returns_old_pair_and_state [OF maximumVelocityNorm_restingCell n]) simp_all
  with n maximumVelocityNorm_restingCell show ?thesis by simp
qed

lemma adaptTimestep_accepted:
  assumes "maximumVelocityNorm E st = Inr maxNorm"
    and "newTimeStep E maxNorm oldTimeStep allowIncrease = Some newStep"
    and "adaptTimestep E st oldTimeStep oldTau smagorinskyConstant allowIncrease
           = Inr (st', tau', step')"
  shows "oldTimeStep \<noteq> 0
       \<and> (if newStep / oldTimeStep * (oldTau - 0.5) + 0.5 \<le> minimumTau smagorinskyConstant
          then st' = st \<and> tau' = oldTau \<and> step' = oldTimeStep
          else step' = newStep \<and> tau' = newStep / oldTimeStep * (oldTau - 0.5) + 0.5)"
  using assms
  by (auto simp: adaptTimestep_def rbind_eq_Inr fdiv_eq_Inr Let_def split: if_splits prod.splits)

text \<open>
  C5. With \<open>critical = 0.5 * C_S\<^sup>2\<close> and \<open>safety = 0.8\<close>: when the maximum velocity norm
  exceeds \<open>critical / safety\<close> the new time step is \<open>oldTimeStep * safety\<close>; otherwise,
  when it is below \<open>critical * safety\<close> and an increase is allowed, the new time step is
  \<open>oldTimeStep / safety\<close>; otherwise the call returns \<open>(oldTau, oldTimeStep)\<close> and the
  unchanged state. The maximum velocity norm is the result of the loop of lines 14-25:
  the greatest of 0 and the velocity norms of the FLUID and INTERFACE cells. The new
  time step is the one the call hands back: in the shrinking and in the growing case
  every normal return of \<open>adaptTimestep\<close> gives the new time step and the tau
  \<open>ratio * (oldTau - 0.5) + 0.5\<close>, with the ratio \<open>safety\<close> and \<open>1 / safety\<close> of the new
  step to the old one, unless that tau is at most \<open>minimumTau\<close>, where it gives the old
  pair and the unchanged state (the refusal of C4).
\<close>

theorem decision_rule:
  assumes "maximumVelocityNorm E st = Inr maxNorm"
    and "critical = 0.5 * (C_S E * C_S E)" and "safety = 0.8"
  shows "maxNorm = Max (insert 0
           ((\<lambda>i. velocityNorm (computeVelocity E (take (Q E) (drop (i * Q E) (distributions st)))
                                  (density st ! i)))
            ` {i. i < length (flags st) \<and> (flags st ! i = FLUID \<or> flags st ! i = INTERFACE)}))
       \<and> (maxNorm > critical / safety \<longrightarrow>
            newTimeStep E maxNorm oldTimeStep allowIncrease = Some (oldTimeStep * safety)
            \<and> (\<forall>st' tau' step'.
                 adaptTimestep E st oldTimeStep oldTau smagorinskyConstant allowIncrease
                   = Inr (st', tau', step') \<longrightarrow>
                 (if safety * (oldTau - 0.5) + 0.5 \<le> minimumTau smagorinskyConstant
                  then st' = st \<and> tau' = oldTau \<and> step' = oldTimeStep
                  else step' = oldTimeStep * safety \<and> tau' = safety * (oldTau - 0.5) + 0.5)))
       \<and> (\<not> maxNorm > critical / safety \<and> maxNorm < critical * safety \<and> allowIncrease \<longrightarrow>
            newTimeStep E maxNorm oldTimeStep allowIncrease = Some (oldTimeStep / safety)
            \<and> (\<forall>st' tau' step'.
                 adaptTimestep E st oldTimeStep oldTau smagorinskyConstant allowIncrease
                   = Inr (st', tau', step') \<longrightarrow>
                 (if 1 / safety * (oldTau - 0.5) + 0.5 \<le> minimumTau smagorinskyConstant
                  then st' = st \<and> tau' = oldTau \<and> step' = oldTimeStep
                  else step' = oldTimeStep / safety \<and> tau' = 1 / safety * (oldTau - 0.5) + 0.5)))
       \<and> (\<not> maxNorm > critical / safety \<and> \<not> (maxNorm < critical * safety \<and> allowIncrease) \<longrightarrow>
            newTimeStep E maxNorm oldTimeStep allowIncrease = None
            \<and> adaptTimestep E st oldTimeStep oldTau smagorinskyConstant allowIncrease
                = Inr (st, oldTau, oldTimeStep))
       \<and> (\<forall>newStep st' tau' step'.
            newTimeStep E maxNorm oldTimeStep allowIncrease = Some newStep \<and>
            adaptTimestep E st oldTimeStep oldTau smagorinskyConstant allowIncrease
                = Inr (st', tau', step') \<longrightarrow>
            step' = newStep \<or> (st' = st \<and> tau' = oldTau \<and> step' = oldTimeStep))"
proof -
  have up: "critical / safety = upperLimit E" and lo: "critical * safety = lowerLimit E"
    unfolding assms(2,3)
    by (simp_all add: upperLimit_def lowerLimit_def criticalVelocity_def multiplier_def)
  have sf: "safety = multiplier" unfolding assms(3) by (simp add: multiplier_def)
  have a: "newTimeStep E maxNorm oldTimeStep allowIncrease = Some (oldTimeStep * multiplier)"
    if "maxNorm > upperLimit E"
    using that by (simp add: newTimeStep_def)
  have a': "if multiplier * (oldTau - 0.5) + 0.5 \<le> minimumTau smagorinskyConstant
            then st' = st \<and> tau' = oldTau \<and> step' = oldTimeStep
            else step' = oldTimeStep * multiplier \<and> tau' = multiplier * (oldTau - 0.5) + 0.5"
    if "maxNorm > upperLimit E"
      and r: "adaptTimestep E st oldTimeStep oldTau smagorinskyConstant allowIncrease
           = Inr (st', tau', step')" for st' tau' step'
  proof -
    note acc = adaptTimestep_accepted [OF assms(1) a [OF that(1)] r]
    then have "oldTimeStep * multiplier / oldTimeStep = multiplier" by simp
    with acc show ?thesis by simp
  qed
  have b: "newTimeStep E maxNorm oldTimeStep allowIncrease = Some (oldTimeStep / multiplier)"
    if "\<not> maxNorm > upperLimit E \<and> maxNorm < lowerLimit E \<and> allowIncrease"
    using that by (simp add: newTimeStep_def)
  have b': "if 1 / multiplier * (oldTau - 0.5) + 0.5 \<le> minimumTau smagorinskyConstant
            then st' = st \<and> tau' = oldTau \<and> step' = oldTimeStep
            else step' = oldTimeStep / multiplier \<and> tau' = 1 / multiplier * (oldTau - 0.5) + 0.5"
    if "\<not> maxNorm > upperLimit E \<and> maxNorm < lowerLimit E \<and> allowIncrease"
      and r: "adaptTimestep E st oldTimeStep oldTau smagorinskyConstant allowIncrease
           = Inr (st', tau', step')" for st' tau' step'
  proof -
    note acc = adaptTimestep_accepted [OF assms(1) b [OF that(1)] r]
    then have "oldTimeStep / multiplier / oldTimeStep = 1 / multiplier" by simp
    with acc show ?thesis by simp
  qed
  have c: "\<not> maxNorm > upperLimit E \<and> \<not> (maxNorm < lowerLimit E \<and> allowIncrease) \<longrightarrow>
            newTimeStep E maxNorm oldTimeStep allowIncrease = None
            \<and> adaptTimestep E st oldTimeStep oldTau smagorinskyConstant allowIncrease
                = Inr (st, oldTau, oldTimeStep)"
    using assms(1) by (auto simp: newTimeStep_def adaptTimestep_def)
  have d: "\<forall>newStep st' tau' step'.
            newTimeStep E maxNorm oldTimeStep allowIncrease = Some newStep \<and>
            adaptTimestep E st oldTimeStep oldTau smagorinskyConstant allowIncrease
                = Inr (st', tau', step') \<longrightarrow>
            step' = newStep \<or> (st' = st \<and> tau' = oldTau \<and> step' = oldTimeStep)"
    using adaptTimestep_unchanged_or_new [OF assms(1)] by blast
  note m = maxVelocity_loop [OF assms(1) [unfolded maximumVelocityNorm_def]]
  show ?thesis
    unfolding up lo unfolding sf
    apply (intro conjI impI allI)
    subgoal by (rule m)
    subgoal by (rule a)
    subgoal by (rule a')
    subgoal by (rule b)
    subgoal by (rule b')
    subgoal using c by blast
    subgoal using c by blast
    subgoal using d by blast
    done
qed

text \<open>The three branches on the instance, where \<open>critical = 1/6\<close> and \<open>oldTau = 1\<close>:
  the moving cell (norm 2/5 above 5/24) is rescaled and returned with the step 0.8 and
  the tau 0.9; the resting cell is rescaled and returned with the step 1.25 and the tau
  1.125 when an increase is allowed, and keeps everything when it is not.\<close>

theorem decision_rule_witness:
  "newTimeStep lineLattice (2 / 5) 1 True = Some (1 * (8 / 10))
   \<and> adaptTimestep lineLattice movingCell 1 1 0 True
       = Inr (movingCellRescaled, 8 / 10 * (1 - 1 / 2) + 1 / 2, 1 * (8 / 10))
   \<and> newTimeStep lineLattice 0 1 True = Some (1 / (8 / 10))
   \<and> adaptTimestep lineLattice restingCell 1 1 0 True
       = Inr (restingCellRescaled, 1 / (8 / 10) * (1 - 1 / 2) + 1 / 2, 1 / (8 / 10))
   \<and> adaptTimestep lineLattice restingCell 1 1 0 False = Inr (restingCell, 1, 1)"
proof -
  have c: "(1 / 6 :: real) = 0.5 * (C_S lineLattice * C_S lineLattice)"
    by (simp add: lineLattice_simps)
  have s: "(8 / 10 :: real) = 0.8" by simp
  note shrink = decision_rule [OF maximumVelocityNorm_movingCell c s, of 1 True 1 0]
  note grow = decision_rule [OF maximumVelocityNorm_restingCell c s, of 1 True 1 0]
  note keep = decision_rule [OF maximumVelocityNorm_restingCell c s, of 1 False 1 0]
  have above: "(2 / 5 :: real) > 1 / 6 / (8 / 10)" by simp
  have below: "\<not> (0 :: real) > 1 / 6 / (8 / 10) \<and> (0 :: real) < 1 / 6 * (8 / 10) \<and> True" by simp
  have between: "\<not> (0 :: real) > 1 / 6 / (8 / 10) \<and> \<not> ((0 :: real) < 1 / 6 * (8 / 10) \<and> False)"
    by simp
  note shrinks = shrink [THEN conjunct2, THEN conjunct1, THEN mp, OF above]
  note grows = grow [THEN conjunct2, THEN conjunct2, THEN conjunct1, THEN mp, OF below]
  note keeps = keep [THEN conjunct2, THEN conjunct2, THEN conjunct2, THEN conjunct1, THEN mp,
      OF between]
  have run1: "adaptTimestep lineLattice movingCell 1 1 0 True
       = Inr (movingCellRescaled, 8 / 10 * (1 - 1 / 2) + 1 / 2, 1 * (8 / 10))"
    by (simp add: movingCell_run)
  have run2: "adaptTimestep lineLattice restingCell 1 1 0 True
       = Inr (restingCellRescaled, 1 / (8 / 10) * (1 - 1 / 2) + 1 / 2, 1 / (8 / 10))"
    by (simp add: restingCell_run)
  show ?thesis
    using shrinks [THEN conjunct1] grows [THEN conjunct1] keeps [THEN conjunct2] run1 run2
    by blast
qed

text \<open>
  C10. On every grid without FLUID and INTERFACE cells, with an increase allowed, a
  non-zero speed of sound and old time step, and an old tau whose candidate
  \<open>1.25 * (oldTau - 0.5) + 0.5\<close> passes the stability floor, the maximum velocity norm is 0,
  the time step is increased, both totals are 0, and the execution reaches
  \<open>medianDensity = totalFluidVolume / totalMass\<close> with \<open>totalMass = 0\<close>: no check stands
  before the division.
\<close>

theorem median_density_divides_by_zero_total_mass:
  assumes "FLUID \<notin> set (flags st)" and "INTERFACE \<notin> set (flags st)"
    and "C_S E \<noteq> 0" and "oldTimeStep \<noteq> 0"
    and "minimumTau smagorinskyConstant < 5 / 4 * (oldTau - 0.5) + 0.5"
  shows "maximumVelocityNorm E st = Inr 0
       \<and> newTimeStep E 0 oldTimeStep True = Some (oldTimeStep / multiplier)
       \<and> totals st = Inr (0, 0)
       \<and> adaptTimestep E st oldTimeStep oldTau smagorinskyConstant True
           = Inl (NonFinite MedianDensity)"
proof -
  have m: "maximumVelocityNorm E st = Inr 0"
    using assms(1,2) by (rule maximumVelocityNorm_no_cells)
  have "0 < C_S E * C_S E" using assms(3) by (auto simp: zero_less_mult_iff)
  then have n: "newTimeStep E 0 oldTimeStep True = Some (oldTimeStep / multiplier)"
    by (simp add: newTimeStep_def upperLimit_def lowerLimit_def criticalVelocity_def
        multiplier_def not_less mult.assoc)
  have r: "fdiv TimeRatio (oldTimeStep / multiplier) oldTimeStep = Inr (5 / 4)"
    using assms(4) by (simp add: fdiv_def multiplier_def)
  have t: "totals (st\<lparr>gravitation := g\<rparr>) = Inr (0, 0)" for g
    using assms(1,2) by (intro totals_no_cells) simp_all
  have t0: "totals st = Inr (0, 0)"
    using assms(1,2) by (rule totals_no_cells)
  have z: "fdiv MedianDensity 0 0 = Inl (NonFinite MedianDensity)"
    by (simp add: fdiv_def)
  have "adaptTimestep E st oldTimeStep oldTau smagorinskyConstant True
           = Inl (NonFinite MedianDensity)"
    using assms(5) by (simp add: adaptTimestep_def m n r t Let_def z)
  with m n t0 show ?thesis by simp
qed

theorem median_density_divides_by_zero_total_mass_witness:
  "FLUID \<notin> set (flags emptyRoom) \<and> INTERFACE \<notin> set (flags emptyRoom)
   \<and> totals emptyRoom = Inr (0, 0)
   \<and> adaptTimestep lineLattice emptyRoom 1 1 0 True = Inl (NonFinite MedianDensity)"
proof -
  have f: "FLUID \<notin> set (flags emptyRoom)" "INTERFACE \<notin> set (flags emptyRoom)"
    by (simp_all add: emptyRoom_def)
  have c: "C_S lineLattice \<noteq> 0" by (simp add: lineLattice_simps)
  have t: "minimumTau 0 < 5 / 4 * (1 - 0.5) + 0.5" by (simp add: minimumTau_def)
  show ?thesis
    using median_density_divides_by_zero_total_mass [OF f c _ t, of 1] f by simp
qed

section \<open>The timestep adapter: the rescaling loops\<close>

lemma rescaleCell_Inr:
  assumes "rescaleCell E r m oldTau newTau smag i st = Inr st'"
  shows "i < length (flags st) \<and> flags st' = flags st \<and> gravitation st' = gravitation st
    \<and> (if flags st ! i = FLUID \<or> flags st ! i = INTERFACE then
          i < length (density st)
          \<and> density st' = (density st)[i := r * (density st ! i - m) + m]
          \<and> (if flags st ! i = INTERFACE then
                i < length (mass st) \<and> r * (density st ! i - m) + m \<noteq> 0
                \<and> mass st' = (mass st)[i := mass st ! i * (density st ! i / (r * (density st ! i - m) + m))]
              else mass st' = mass st)
        else st' = st)"
  using assms
  by (auto simp: rescaleCell_def rbind_eq_Inr rd_eq_Inr wr_eq_Inr fdiv_eq_Inr Let_def
      split: if_splits)

lemma rescale_loop:
  assumes "foldM (rescaleCell E r m oldTau newTau smag) [0 ..< n] st = Inr st'"
  shows "flags st' = flags st \<and> gravitation st' = gravitation st
    \<and> length (density st') = length (density st) \<and> length (mass st') = length (mass st)
    \<and> n \<le> length (flags st)
    \<and> (\<forall>i. density st' ! i =
          (if i < n \<and> (flags st ! i = FLUID \<or> flags st ! i = INTERFACE)
           then r * (density st ! i - m) + m else density st ! i))
    \<and> (\<forall>i. mass st' ! i =
          (if i < n \<and> flags st ! i = INTERFACE
           then mass st ! i * (density st ! i / (r * (density st ! i - m) + m))
           else mass st ! i))"
  using assms
proof (induction n arbitrary: st')
  case 0
  then show ?case by simp
next
  case (Suc n)
  from Suc.prems obtain st1 where
    a: "foldM (rescaleCell E r m oldTau newTau smag) [0 ..< n] st = Inr st1" and
    b: "rescaleCell E r m oldTau newTau smag n st1 = Inr st'"
    by (auto simp: foldM_snoc rbind_eq_Inr)
  note ih = Suc.IH [OF a]
  let ?act = "\<lambda>i. flags st ! i = FLUID \<or> flags st ! i = INTERFACE"
  let ?nd = "\<lambda>i. r * (density st ! i - m) + m"
  have fl: "flags st1 = flags st" and dn: "density st1 ! n = density st ! n"
    and mn: "mass st1 ! n = mass st ! n"
    and ld: "length (density st1) = length (density st)"
    and lm: "length (mass st1) = length (mass st)"
    using ih by simp_all
  have ihd: "density st1 ! i = (if i < n \<and> ?act i then ?nd i else density st ! i)" for i
    using ih by blast
  have ihm: "mass st1 ! i = (if i < n \<and> flags st ! i = INTERFACE
       then mass st ! i * (density st ! i / ?nd i) else mass st ! i)" for i
    using ih by blast
  note step = rescaleCell_Inr [OF b, unfolded fl dn mn ld lm]
  have base: "flags st' = flags st \<and> gravitation st' = gravitation st \<and> Suc n \<le> length (flags st)"
    using step ih by auto
  have len: "length (density st') = length (density st) \<and> length (mass st') = length (mass st)"
    using step ld lm by (auto split: if_splits)
  have d: "density st' ! i = (if i < Suc n \<and> ?act i then ?nd i else density st ! i)" for i
  proof (cases "?act n")
    case False
    with step have "st' = st1" by auto
    with False show ?thesis by (auto simp: ihd less_Suc_eq)
  next
    case True
    with step have e: "density st' = (density st1)[n := ?nd n]" and "n < length (density st)"
      by auto
    then show ?thesis using True ld
      by (cases "i = n") (auto simp: ihd less_Suc_eq)
  qed
  have ms: "mass st' ! i = (if i < Suc n \<and> flags st ! i = INTERFACE
       then mass st ! i * (density st ! i / ?nd i) else mass st ! i)" for i
  proof (cases "flags st ! n = INTERFACE")
    case False
    with step have "mass st' = mass st1" by (auto split: if_splits)
    with False show ?thesis by (auto simp: ihm less_Suc_eq)
  next
    case True
    with step have e: "mass st' = (mass st1)[n := mass st ! n * (density st ! n / ?nd n)]"
      and "n < length (mass st)"
      by auto
    then show ?thesis using True lm
      by (cases "i = n") (auto simp: ihm less_Suc_eq)
  qed
  show ?case using base len d ms by blast
qed

lemma rescale_loop_density:
  assumes "foldM (rescaleCell E r m oldTau newTau smag) [0 ..< n] st = Inr st'"
    and "i < n" and "flags st ! i = FLUID \<or> flags st ! i = INTERFACE"
  shows "density st' ! i = r * (density st ! i - m) + m"
proof -
  from rescale_loop [OF assms(1)]
  have "density st' ! i =
          (if i < n \<and> (flags st ! i = FLUID \<or> flags st ! i = INTERFACE)
           then r * (density st ! i - m) + m else density st ! i)"
    by blast
  with assms(2,3) show ?thesis by simp
qed

lemma rescale_loop_mass:
  assumes "foldM (rescaleCell E r m oldTau newTau smag) [0 ..< n] st = Inr st'"
    and "i < n" and "flags st ! i = INTERFACE"
  shows "mass st' ! i = mass st ! i * (density st ! i / (r * (density st ! i - m) + m))"
proof -
  from rescale_loop [OF assms(1)]
  have "mass st' ! i =
          (if i < n \<and> flags st ! i = INTERFACE
           then mass st ! i * (density st ! i / (r * (density st ! i - m) + m))
           else mass st ! i)"
    by blast
  with assms(2,3) show ?thesis by simp
qed

lemma adaptTimestep_Inr:
  assumes "adaptTimestep E st oldTimeStep oldTau smag allow = Inr (st', tau', step')"
  shows "(st' = st \<and> tau' = oldTau \<and> step' = oldTimeStep)
     \<or> (oldTimeStep \<noteq> 0
        \<and> (step' = oldTimeStep * multiplier \<or> step' = oldTimeStep / multiplier)
        \<and> tau' = step' / oldTimeStep * (oldTau - 0.5) + 0.5
        \<and> (\<exists>V M g. totals (st\<lparr>gravitation := g\<rparr>) = Inr (V, M) \<and> M \<noteq> 0
              \<and> foldM (rescaleCell E (step' / oldTimeStep) (V / M) oldTau tau' smag)
                    [0 ..< length (density st)] (st\<lparr>gravitation := g\<rparr>) = Inr st'))"
proof -
  from assms obtain maxNorm where
    rest: "(case newTimeStep E maxNorm oldTimeStep allow of
         None \<Rightarrow> Inr (st, oldTau, oldTimeStep)
       | Some newStep \<Rightarrow>
           rbind (fdiv TimeRatio newStep oldTimeStep) (\<lambda>timeRatio.
             let newTau = timeRatio * (oldTau - 0.5) + 0.5 in
             if newTau \<le> minimumTau smag then Inr (st, oldTau, oldTimeStep)
             else
               (let st1 = st\<lparr>gravitation := scale3 (timeRatio * timeRatio) (gravitation st)\<rparr> in
                rbind (totals st1) (\<lambda>(totalFluidVolume, totalMass).
                rbind (fdiv MedianDensity totalFluidVolume totalMass) (\<lambda>medianDensity.
                rbind (foldM (rescaleCell E timeRatio medianDensity oldTau newTau smag)
                         [0 ..< length (density st1)] st1) (\<lambda>st2.
                  Inr (st2, newTau, newStep))))))) = Inr (st', tau', step')"
    unfolding adaptTimestep_def rbind_eq_Inr by blast
  show ?thesis
  proof (cases "newTimeStep E maxNorm oldTimeStep allow")
    case None
    with rest show ?thesis by simp
  next
    case (Some newStep)
    then have ns: "newStep = oldTimeStep * multiplier \<or> newStep = oldTimeStep / multiplier"
      by (auto simp: newTimeStep_def split: if_splits)
    from rest Some have nz: "oldTimeStep \<noteq> 0" and
      rest2: "(let newTau = newStep / oldTimeStep * (oldTau - 0.5) + 0.5 in
             if newTau \<le> minimumTau smag then Inr (st, oldTau, oldTimeStep)
             else
               (let st1 = st\<lparr>gravitation := scale3 (newStep / oldTimeStep * (newStep / oldTimeStep)) (gravitation st)\<rparr> in
                rbind (totals st1) (\<lambda>(totalFluidVolume, totalMass).
                rbind (fdiv MedianDensity totalFluidVolume totalMass) (\<lambda>medianDensity.
                rbind (foldM (rescaleCell E (newStep / oldTimeStep) medianDensity oldTau newTau smag)
                         [0 ..< length (density st1)] st1) (\<lambda>st2.
                  Inr (st2, newTau, newStep)))))) = Inr (st', tau', step')"
      by (auto simp: rbind_eq_Inr fdiv_eq_Inr)
    show ?thesis
    proof (cases "newStep / oldTimeStep * (oldTau - 0.5) + 0.5 \<le> minimumTau smag")
      case True
      with rest2 show ?thesis by (simp add: Let_def)
    next
      case False
      with rest2 obtain V M st2 where
        "totals (st\<lparr>gravitation := scale3 (newStep / oldTimeStep * (newStep / oldTimeStep)) (gravitation st)\<rparr>) = Inr (V, M)"
        "M \<noteq> 0"
        "foldM (rescaleCell E (newStep / oldTimeStep) (V / M) oldTau (newStep / oldTimeStep * (oldTau - 0.5) + 0.5) smag)
           [0 ..< length (density st)]
           (st\<lparr>gravitation := scale3 (newStep / oldTimeStep * (newStep / oldTimeStep)) (gravitation st)\<rparr>) = Inr st'"
        "tau' = newStep / oldTimeStep * (oldTau - 0.5) + 0.5" "step' = newStep"
        by (auto simp: Let_def rbind_eq_Inr fdiv_eq_Inr split: prod.splits)
      with nz ns show ?thesis by blast
    qed
  qed
qed

lemma volume_fraction_algebra:
  fixes ms d d' :: real
  assumes "0 < d" "0 < d'"
  shows "(ms * (d / d')) / d' = ms / d \<longleftrightarrow> ms = 0 \<or> d' = d"
proof -
  have "(ms * (d / d')) / d' = ms / d \<longleftrightarrow> ms * (d * d) = ms * (d' * d')"
    using assms by (simp add: field_simps)
  also have "\<dots> \<longleftrightarrow> ms = 0 \<or> d * d = d' * d'" by auto
  also have "d * d = d' * d' \<longleftrightarrow> d' = d"
    using assms power2_eq_iff_nonneg [of d d'] by (auto simp: power2_eq_square)
  finally show ?thesis .
qed

lemma interfaceCell_run:
  "adaptTimestep lineLattice interfaceCell 1 1 0 True
     = Inr (interfaceCellRescaled, 9 / 8, 5 / 4)"
  by (simp add: adaptTimestep_def adapt_eval interfaceCell_def interfaceCellRescaled_def)

lemma balancedCells_run:
  "adaptTimestep lineLattice balancedCells 1 1 0 True
     = Inr (balancedCellsRescaled, 9 / 8, 5 / 4)"
  by (simp add: adaptTimestep_def adapt_eval balancedCells_def balancedCellsRescaled_def)

text \<open>
  C3, as the code has it. For every INTERFACE cell with positive old and new density,
  a normal return of \<open>adaptTimestep\<close> leaves \<open>newMass = oldMass * (oldDensity / newDensity)\<close>.
  This factor does not keep the volume fraction: \<open>newMass / newDensity\<close> equals
  \<open>oldMass / oldDensity\<close> exactly when the mass is zero or the density did not change.
\<close>

theorem interface_mass_rescale:
  assumes "adaptTimestep E st oldTimeStep oldTau smag allow = Inr (st', tau', step')"
    and "i < length (density st)" and "flags st ! i = INTERFACE"
    and "0 < density st ! i" and "0 < density st' ! i"
  shows "mass st' ! i = mass st ! i * (density st ! i / density st' ! i)
       \<and> (mass st' ! i / density st' ! i = mass st ! i / density st ! i
            \<longleftrightarrow> mass st ! i = 0 \<or> density st' ! i = density st ! i)"
proof -
  from adaptTimestep_Inr [OF assms(1)] consider
    (same) "st' = st" |
    (rescaled) V M g where
      "foldM (rescaleCell E (step' / oldTimeStep) (V / M) oldTau tau' smag)
         [0 ..< length (density st)] (st\<lparr>gravitation := g\<rparr>) = Inr st'"
    by blast
  then have m: "mass st' ! i = mass st ! i * (density st ! i / density st' ! i)"
  proof cases
    case same
    with assms(4) show ?thesis by simp
  next
    case rescaled
    from rescale_loop_mass [OF rescaled, of i] rescale_loop_density [OF rescaled, of i]
      assms(2,3)
    show ?thesis by simp
  qed
  show ?thesis
    unfolding m using volume_fraction_algebra [OF assms(4,5)] m by simp
qed

theorem interface_mass_rescale_witness:
  "mass interfaceCellRescaled ! 0
     = mass interfaceCell ! 0 * (density interfaceCell ! 0 / density interfaceCellRescaled ! 0)
   \<and> mass interfaceCellRescaled ! 0 = 16 / 19
   \<and> (mass interfaceCellRescaled ! 0 / density interfaceCellRescaled ! 0
        = mass interfaceCell ! 0 / density interfaceCell ! 0)
     = (mass interfaceCell ! 0 = 0
        \<or> density interfaceCellRescaled ! 0 = density interfaceCell ! 0)"
  using interface_mass_rescale [OF interfaceCell_run, of 0]
  by (simp add: interfaceCell_def interfaceCellRescaled_def)

text \<open>The claim as stated fails on the interface cell of density 2 and mass 1: the
  accepted rescale gives density 19/8 and mass 16/19, so the volume fraction goes from
  1/2 to 128/361.\<close>

theorem volume_fraction_not_kept_counterexample:
  "adaptTimestep lineLattice interfaceCell 1 1 0 True
     = Inr (interfaceCellRescaled, 9 / 8, 5 / 4)
   \<and> flags interfaceCell ! 0 = INTERFACE
   \<and> 0 < density interfaceCell ! 0 \<and> 0 < density interfaceCellRescaled ! 0
   \<and> mass interfaceCellRescaled ! 0
       = mass interfaceCell ! 0 * (density interfaceCell ! 0 / density interfaceCellRescaled ! 0)
   \<and> mass interfaceCell ! 0 / density interfaceCell ! 0 = 1 / 2
   \<and> mass interfaceCellRescaled ! 0 / density interfaceCellRescaled ! 0 = 128 / 361"
  by (simp add: interfaceCell_run) (simp add: interfaceCell_def interfaceCellRescaled_def)

lemma totals_loop:
  assumes "foldM (totalsStep st) [0 ..< n] (0, 0) = Inr (V, M)"
  shows "n \<le> length (flags st)
    \<and> (\<forall>i<n. flags st ! i = FLUID \<or> flags st ! i = INTERFACE \<longrightarrow> i < length (density st))
    \<and> (\<forall>i<n. flags st ! i = INTERFACE \<longrightarrow> i < length (mass st) \<and> density st ! i \<noteq> 0)
    \<and> V = (\<Sum>i<n. if flags st ! i = FLUID then 1
                     else if flags st ! i = INTERFACE then mass st ! i / density st ! i else 0)
    \<and> M = (\<Sum>i<n. if flags st ! i = FLUID then density st ! i
                     else if flags st ! i = INTERFACE then mass st ! i else 0)"
  using assms
proof (induction n arbitrary: V M)
  case 0
  then show ?case by simp
next
  case (Suc n)
  from Suc.prems obtain V1 M1 where
    a: "foldM (totalsStep st) [0 ..< n] (0, 0) = Inr (V1, M1)" and
    b: "totalsStep st n (V1, M1) = Inr (V, M)"
    by (auto simp: foldM_snoc rbind_eq_Inr)
  note ih = Suc.IH [OF a]
  from b have n: "n < length (flags st)"
    by (auto simp: totalsStep_def rbind_eq_Inr rd_eq_Inr)
  show ?case
  proof (cases "flags st ! n = FLUID")
    case True
    with b n have "n < length (density st)" "V = V1 + 1" "M = M1 + density st ! n"
      by (auto simp: totalsStep_def rbind_eq_Inr rd_eq_Inr)
    with ih True n show ?thesis by (auto simp: less_Suc_eq)
  next
    case notFluid: False
    show ?thesis
    proof (cases "flags st ! n = INTERFACE")
      case True
      with b n have "n < length (density st)" "n < length (mass st)" "density st ! n \<noteq> 0"
        "V = V1 + mass st ! n / density st ! n" "M = M1 + mass st ! n"
        by (auto simp: totalsStep_def rbind_eq_Inr rd_eq_Inr fdiv_eq_Inr)
      with ih True n show ?thesis by (auto simp: less_Suc_eq)
    next
      case False
      with b n notFluid have "V = V1" "M = M1"
        by (auto simp: totalsStep_def rbind_eq_Inr rd_eq_Inr)
      with ih False notFluid n show ?thesis by (auto simp: less_Suc_eq)
    qed
  qed
qed

lemma totals_gravitation: "totals (st\<lparr>gravitation := g\<rparr>) = totals st"
proof -
  have "totalsStep (st\<lparr>gravitation := g\<rparr>) = totalsStep st"
    by (intro ext) (simp add: totalsStep_def cong: if_cong)
  then show ?thesis by (simp add: totals_def)
qed

text \<open>
  C2, as the code has it. The rescale moves every FLUID and INTERFACE density towards
  \<open>medianDensity = totalFluidVolume / totalMass\<close> and multiplies the mass of an INTERFACE
  cell by \<open>oldDensity / newDensity\<close>. Whenever \<open>adaptTimestep\<close> returns normally, that is
  no division of the run has a zero denominator (the old time step, the total mass, the
  old and the new density of every INTERFACE cell, every \<open>oldFeq[j]\<close> and the old
  relaxation time are not zero where they divide, so that every value stays finite) and
  no access is out of range, the sum of the density over the FLUID cells and the mass
  over the INTERFACE cells is the same after the call as before, provided every
  INTERFACE cell has density 1 and the densities of the FLUID cells sum to their number
  (mean density 1). It is not preserved in general, and with a zero denominator the
  source goes on with a value that is not a number.
\<close>

theorem balanced_rescale_preserves_mass:
  assumes run: "adaptTimestep E st oldTimeStep oldTau smag allow = Inr (st', tau', step')"
    and unitInterface: "\<forall>i<length (flags st). flags st ! i = INTERFACE \<longrightarrow> density st ! i = 1"
    and meanFluid: "(\<Sum>i<length (flags st). if flags st ! i = FLUID then density st ! i - 1 else 0) = 0"
  shows "systemMass st' = systemMass st"
proof -
  from adaptTimestep_Inr [OF run] consider
    (same) "st' = st" |
    (rescaled) V M g where
      "totals (st\<lparr>gravitation := g\<rparr>) = Inr (V, M)" "M \<noteq> 0"
      "foldM (rescaleCell E (step' / oldTimeStep) (V / M) oldTau tau' smag)
         [0 ..< length (density st)] (st\<lparr>gravitation := g\<rparr>) = Inr st'"
    by blast
  then show ?thesis
  proof cases
    case same
    then show ?thesis by simp
  next
    case rescaled
    let ?n = "length (flags st)"
    let ?r = "step' / oldTimeStep"
    let ?F = "\<lambda>i. flags st ! i = FLUID"
    let ?I = "\<lambda>i. flags st ! i = INTERFACE"
    from totals_loop [OF rescaled(1) [unfolded totals_gravitation, unfolded totals_def]]
    have inr: "\<forall>i<?n. ?F i \<or> ?I i \<longrightarrow> i < length (density st)"
      and V: "V = (\<Sum>i<?n. if ?F i then 1 else if ?I i then mass st ! i / density st ! i else 0)"
      and M: "M = (\<Sum>i<?n. if ?F i then density st ! i else if ?I i then mass st ! i else 0)"
      by simp_all
    have "M - V = (\<Sum>i<?n. (if ?F i then density st ! i else if ?I i then mass st ! i else 0)
                      - (if ?F i then 1 else if ?I i then mass st ! i / density st ! i else 0))"
      unfolding V M by (simp add: sum_subtractf)
    also have "\<dots> = (\<Sum>i<?n. if ?F i then density st ! i - 1 else 0)"
      using unitInterface by (intro sum.cong) auto
    finally have "M = V" using meanFluid by simp
    with rescaled(2) have median: "V / M = 1" by simp
    note loop = rescaled(3) [unfolded median]
    from rescale_loop [OF loop] have fl: "flags st' = flags st" by simp
    have summand: "(if flags st' ! i = FLUID then density st' ! i
                 else if flags st' ! i = INTERFACE then mass st' ! i else 0)
              = (if ?F i then density st ! i else if ?I i then mass st ! i else 0)
                + (?r - 1) * (if ?F i then density st ! i - 1 else 0)"
      if i: "i < ?n" for i
    proof (cases "?F i")
      case True
      with inr i have "i < length (density st)" by blast
      from rescale_loop_density [OF loop this] True
      show ?thesis by (simp add: fl algebra_simps)
    next
      case notFluid: False
      show ?thesis
      proof (cases "?I i")
        case True
        with inr i have "i < length (density st)" by blast
        from rescale_loop_mass [OF loop this] True unitInterface i
        show ?thesis by (simp add: fl)
      next
        case False
        with notFluid show ?thesis by (simp add: fl)
      qed
    qed
    have "systemMass st' = (\<Sum>i<?n. (if ?F i then density st ! i else if ?I i then mass st ! i else 0)
                + (?r - 1) * (if ?F i then density st ! i - 1 else 0))"
      unfolding systemMass_def fl by (rule sum.cong [OF refl], rule summand [unfolded fl], simp)
    also have "\<dots> = systemMass st + (?r - 1) * (\<Sum>i<?n. if ?F i then density st ! i - 1 else 0)"
      by (simp add: systemMass_def sum.distrib sum_distrib_left)
    finally show ?thesis using meanFluid by simp
  qed
qed

text \<open>The balanced cells: the densities 0.9, 1.1, 1 become 7/8, 9/8, 1 and the sum
  stays 5/2.\<close>

theorem balanced_rescale_preserves_mass_witness:
  "adaptTimestep lineLattice balancedCells 1 1 0 True
     = Inr (balancedCellsRescaled, 9 / 8, 5 / 4)
   \<and> density balancedCellsRescaled \<noteq> density balancedCells
   \<and> systemMass balancedCells = 5 / 2
   \<and> systemMass balancedCellsRescaled = systemMass balancedCells"
proof -
  have u: "\<forall>i<length (flags balancedCells).
             flags balancedCells ! i = INTERFACE \<longrightarrow> density balancedCells ! i = 1"
    by (simp add: balancedCells_def less_Suc_eq)
  have m: "(\<Sum>i<length (flags balancedCells).
              if flags balancedCells ! i = FLUID then density balancedCells ! i - 1 else 0) = 0"
    by (simp add: balancedCells_def lessThan_Suc)
  have "systemMass balancedCellsRescaled = systemMass balancedCells"
    by (rule balanced_rescale_preserves_mass [OF balancedCells_run u m])
  moreover have "density balancedCellsRescaled \<noteq> density balancedCells"
    by (simp add: balancedCells_def balancedCellsRescaled_def)
  moreover have "systemMass balancedCells = 5 / 2"
    by (simp add: systemMass_def balancedCells_def lessThan_Suc)
  ultimately show ?thesis using balancedCells_run by simp
qed

text \<open>The claim as stated fails on the single FLUID cell of density 2: the step grows
  from 1 to 1.25, the change is accepted, and the sum goes from 2 to 19/8.\<close>

theorem mass_not_preserved_counterexample:
  "adaptTimestep lineLattice restingCell 1 1 0 True = Inr (restingCellRescaled, 9 / 8, 5 / 4)
   \<and> systemMass restingCell = 2
   \<and> systemMass restingCellRescaled = 19 / 8"
  by (simp add: restingCell_run)
     (simp add: systemMass_def restingCell_def restingCellRescaled_def)

text \<open>The side condition on the divisions is needed: one INTERFACE cell of density 1
  and mass 0 meets both provisos, its total mass is 0, and the run ends in the division
  \<open>totalFluidVolume / totalMass = 0 / 0\<close>.\<close>

lemma maximumVelocityNorm_masslessInterfaceCell:
  "maximumVelocityNorm lineLattice masslessInterfaceCell = Inr 0"
  by (simp add: adapt_eval masslessInterfaceCell_def)

lemma masslessInterfaceCell_run:
  "adaptTimestep lineLattice masslessInterfaceCell 1 1 0 True = Inl (NonFinite MedianDensity)"
  by (simp add: adaptTimestep_def maximumVelocityNorm_masslessInterfaceCell)
     (simp add: adapt_eval masslessInterfaceCell_def)

section \<open>The timestep adapter: no abort\<close>

lemma rbind_eq_assert:
  "rbind m f = Inl AssertionFailed \<longleftrightarrow>
     m = Inl AssertionFailed \<or> (\<exists>v. m = Inr v \<and> f v = Inl AssertionFailed)"
  by (cases m) simp_all

lemma foldM_no_assert:
  "(\<And>x s. f x s \<noteq> Inl AssertionFailed) \<Longrightarrow> foldM f xs s \<noteq> Inl AssertionFailed"
  by (induction xs arbitrary: s) (simp_all add: rbind_eq_assert)

lemma access_no_assert:
  "rd xs i \<noteq> Inl AssertionFailed" "wr xs i v \<noteq> Inl AssertionFailed"
  "fdiv d a b \<noteq> Inl AssertionFailed" "cellAt E ds k \<noteq> Inl AssertionFailed"
  by (simp_all add: rd_def wr_def fdiv_def cellAt_def)

lemma maxVelocityStep_no_assert: "maxVelocityStep E st i m \<noteq> Inl AssertionFailed"
  by (simp add: maxVelocityStep_def rbind_eq_assert access_no_assert)

lemma maximumVelocityNorm_no_assert: "maximumVelocityNorm E st \<noteq> Inl AssertionFailed"
  unfolding maximumVelocityNorm_def by (rule foldM_no_assert) (rule maxVelocityStep_no_assert)

lemma totalsStep_no_assert: "totalsStep st i acc \<noteq> Inl AssertionFailed"
  by (cases acc) (simp add: totalsStep_def rbind_eq_assert access_no_assert)

lemma totals_no_assert: "totals st \<noteq> Inl AssertionFailed"
  unfolding totals_def by (rule foldM_no_assert) (rule totalsStep_no_assert)

lemma tauRatioOf_no_assert:
  "tauRatioOf E ds k oldFeq newFeq r oldTau newTau smag \<noteq> Inl AssertionFailed"
  by (simp add: tauRatioOf_def Let_def rbind_eq_assert access_no_assert)

lemma rescaleDistribution_no_assert:
  "rescaleDistribution k t oldFeq newFeq j ds \<noteq> Inl AssertionFailed"
  by (simp add: rescaleDistribution_def rbind_eq_assert access_no_assert)

lemma rescaleCell_no_assert:
  "rescaleCell E r m oldTau newTau smag i st \<noteq> Inl AssertionFailed"
  by (simp add: rescaleCell_def Let_def rbind_eq_assert access_no_assert tauRatioOf_no_assert
      foldM_no_assert [OF rescaleDistribution_no_assert])

lemma adaptTimestep_no_assert:
  "adaptTimestep E st oldTimeStep oldTau smag allow \<noteq> Inl AssertionFailed"
  by (simp add: adaptTimestep_def Let_def rbind_eq_assert access_no_assert
      maximumVelocityNorm_no_assert totals_no_assert
      foldM_no_assert [OF rescaleCell_no_assert] split: option.splits prod.splits)

lemma rescaleDistribution_loop_zero:
  assumes "\<forall>j\<in>set js. k + j < length ds" and "\<exists>j\<in>set js. oldFeq j = 0"
  shows "foldM (rescaleDistribution k t oldFeq newFeq) js ds = Inl (NonFinite FeqRatio)"
  using assms
proof (induction js arbitrary: ds)
  case Nil
  then show ?case by simp
next
  case (Cons j js)
  show ?case
  proof (cases "oldFeq j = 0")
    case True
    then show ?thesis by (simp add: rescaleDistribution_def fdiv_def)
  next
    case False
    with Cons.prems have z: "\<exists>j\<in>set js. oldFeq j = 0" by auto
    from Cons.prems have r: "k + j < length ds" by simp
    let ?ds = "ds[k + j := newFeq j / oldFeq j * (oldFeq j + t * (ds ! (k + j) - oldFeq j))]"
    have step: "rescaleDistribution k t oldFeq newFeq j ds = Inr ?ds"
      using False r by (simp add: rescaleDistribution_def fdiv_def rd_def wr_def)
    have "\<forall>j\<in>set js. k + j < length ?ds" using Cons.prems by simp
    from Cons.IH [OF this z] step show ?thesis by simp
  qed
qed

lemma upperLimit_below_fast: "5 / 24 < sqrt (2 / 3)"
  by (rule real_less_rsqrt) (simp add: power2_eq_square)

lemma maximumVelocityNorm_fastCell:
  "maximumVelocityNorm lineLattice fastCell = Inr (sqrt (2 / 3))"
  by (simp add: adapt_eval fastCell_def)

text \<open>
  C9, as the code has it. \<open>adaptTimestep\<close> never ends in a failed assertion: it has no
  check at all. When the rescale of a FLUID or INTERFACE cell whose accesses are in range
  meets \<open>oldFeq[j] = 0\<close>, the cell's rescale divides by zero (the outcome is \<open>NonFinite\<close>:
  NaN or an infinity is produced silently); without the turbulence model and with a
  non-zero old tau the division that does so is \<open>feqRatio = newFeq[j] / oldFeq[j]\<close>.
\<close>

theorem zero_oldFeq_is_divided_by:
  assumes "i < length (flags st)" and "flags st ! i = FLUID \<or> flags st ! i = INTERFACE"
    and "i < length (density st)" and "i * Q E + Q E \<le> length (distributions st)"
    and "oldFeq = computeFeq E (density st ! i)
                   (computeVelocity E (take (Q E) (drop (i * Q E) (distributions st))) (density st ! i))"
    and "j < Q E" and "oldFeq j = 0"
  shows "(\<exists>d. rescaleCell E timeRatio medianDensity oldTau newTau smag i st = Inl (NonFinite d))
       \<and> (\<not> 0 < smag \<and> oldTau \<noteq> 0 \<longrightarrow>
            rescaleCell E timeRatio medianDensity oldTau newTau smag i st
              = Inl (NonFinite FeqRatio))
       \<and> adaptTimestep E st' oldTimeStep oldTau smag allow \<noteq> Inl AssertionFailed"
proof -
  let ?cell = "take (Q E) (drop (i * Q E) (distributions st))"
  let ?nd = "timeRatio * (density st ! i - medianDensity) + medianDensity"
  let ?newFeq = "computeFeq E ?nd (scale3 timeRatio (computeVelocity E ?cell (density st ! i)))"
  let ?tr = "tauRatioOf E (distributions st) (i * Q E) oldFeq ?newFeq timeRatio oldTau newTau smag"
  have c: "cellAt E (distributions st) (i * Q E) = Inr ?cell"
    using assms(4) by (simp add: cellAt_def)
  have body: "rescaleCell E timeRatio medianDensity oldTau newTau smag i st
      = rbind ?tr (\<lambda>tauRatio.
          rbind (foldM (rescaleDistribution (i * Q E) tauRatio oldFeq ?newFeq) [0 ..< Q E]
                   (distributions st)) (\<lambda>ds'.
          rbind (if flags st ! i = INTERFACE then
                   rbind (rd (mass st) i) (\<lambda>m.
                   rbind (fdiv MassRatio (density st ! i) ?nd) (\<lambda>q. wr (mass st) i (m * q)))
                 else Inr (mass st)) (\<lambda>mass'.
          rbind (wr (density st) i ?nd) (\<lambda>density'.
            Inr (st\<lparr>distributions := ds', density := density', mass := mass'\<rparr>)))))"
    using assms(1,2,3) by (auto simp: rescaleCell_def rd_def c Let_def assms(5))
  have loop: "foldM (rescaleDistribution (i * Q E) t oldFeq ?newFeq) [0 ..< Q E] (distributions st)
        = Inl (NonFinite FeqRatio)" for t
    using assms(4,6,7) by (intro rescaleDistribution_loop_zero) auto
  have "\<exists>d. rescaleCell E timeRatio medianDensity oldTau newTau smag i st = Inl (NonFinite d)"
  proof (cases ?tr)
    case (Inr t)
    then show ?thesis unfolding body by (simp add: loop)
  next
    case (Inl e)
    then have "e = NonFinite LocalTauRatio \<or> e = NonFinite TauRatio"
      by (auto simp: tauRatioOf_def Let_def fdiv_def rbind_def split: if_splits)
    with Inl show ?thesis unfolding body by auto
  qed
  moreover have "rescaleCell E timeRatio medianDensity oldTau newTau smag i st
              = Inl (NonFinite FeqRatio)" if "\<not> 0 < smag" "oldTau \<noteq> 0"
  proof -
    from that have "?tr = Inr (timeRatio * (newTau / oldTau))"
      by (simp add: tauRatioOf_def fdiv_def)
    then show ?thesis unfolding body by (simp add: loop)
  qed
  ultimately show ?thesis using adaptTimestep_no_assert by blast
qed

text \<open>The fast cell with time ratio 0.8, median density 1, taus 1 and 0.9.\<close>

theorem zero_oldFeq_is_divided_by_witness:
  "lineFeq 1 (momentVelocity [1 - sqrt (2 / 3), sqrt (2 / 3), 0] 1) 0 = 0
   \<and> rescaleCell lineLattice (4 / 5) 1 1 (9 / 10) 0 0 fastCell = Inl (NonFinite FeqRatio)
   \<and> adaptTimestep lineLattice fastCell 1 1 0 False \<noteq> Inl AssertionFailed"
proof -
  have z: "lineFeq 1 (momentVelocity [1 - sqrt (2 / 3), sqrt (2 / 3), 0] 1) 0 = 0"
    by (simp add: lineFeq_def momentVelocity_def lineWeight_def lineVelocities_def)
  have a: "0 < length (flags fastCell)" "flags fastCell ! 0 = FLUID \<or> flags fastCell ! 0 = INTERFACE"
    "0 < length (density fastCell)" "0 * Q lineLattice + Q lineLattice \<le> length (distributions fastCell)"
    by (simp_all add: fastCell_def lineLattice_simps)
  have o: "lineFeq 1 (momentVelocity [1 - sqrt (2 / 3), sqrt (2 / 3), 0] 1)
      = computeFeq lineLattice (density fastCell ! 0)
          (computeVelocity lineLattice
             (take (Q lineLattice) (drop (0 * Q lineLattice) (distributions fastCell)))
             (density fastCell ! 0))"
    by (simp add: fastCell_def lineLattice_simps)
  have q: "0 < Q lineLattice" by (simp add: lineLattice_simps)
  from zero_oldFeq_is_divided_by [OF a o q z, of "4 / 5" 1 1 "9 / 10" 0 fastCell 1 False] z
  show ?thesis by simp
qed

text \<open>The claim as stated fails on the fast cell: the equilibrium of the rest direction
  is zero there, the shrunk time step is accepted, and the call runs into the division
  by it; the outcome is not an abort.\<close>

theorem zero_oldFeq_not_checked_counterexample:
  "lineFeq 1 (momentVelocity [1 - sqrt (2 / 3), sqrt (2 / 3), 0] 1) 0 = 0
   \<and> adaptTimestep lineLattice fastCell 1 1 0 False = Inl (NonFinite FeqRatio)
   \<and> adaptTimestep lineLattice fastCell 1 1 0 False \<noteq> Inl AssertionFailed"
proof -
  have z: "lineFeq 1 (momentVelocity [1 - sqrt (2 / 3), sqrt (2 / 3), 0] 1) 0 = 0"
    by (simp add: lineFeq_def momentVelocity_def lineWeight_def lineVelocities_def)
  have r: "adaptTimestep lineLattice fastCell 1 1 0 False = Inl (NonFinite FeqRatio)"
    using upperLimit_below_fast
    by (simp add: adaptTimestep_def maximumVelocityNorm_fastCell)
       (simp add: adapt_eval fastCell_def)
  from z r show ?thesis by simp
qed

section \<open>The streaming engine: the two passes over the directions\<close>

lemma rdi_eq_Inr: "rdi xs k = Inr v \<longleftrightarrow> 0 \<le> k \<and> k < int (length xs) \<and> v = xs ! nat k"
  by (auto simp: rdi_def rd_def)

lemma wri_eq_Inr:
  "wri xs k v = Inr ys \<longleftrightarrow> 0 \<le> k \<and> k < int (length xs) \<and> ys = xs[nat k := v]"
  by (auto simp: wri_def wr_def)

lemma cellAti_eq_Inr:
  "cellAti E xs k = Inr c \<longleftrightarrow>
     0 \<le> k \<and> k + int (Q E) \<le> int (length xs) \<and> c = take (Q E) (drop (nat k) xs)"
  by (auto simp: cellAti_def cellAt_def)

lemma streamDirection_Inr:
  assumes "streamDirection E collideField len x y z fieldIndex i s = Inr t"
  shows "0 \<le> upstreamSlot E len (x, y, z) i
       \<and> upstreamSlot E len (x, y, z) i < int (length collideField)
       \<and> 0 \<le> collideField ! nat (upstreamSlot E len (x, y, z) i)
       \<and> 0 \<le> fieldIndex + int i \<and> fieldIndex + int i < int (length s)
       \<and> t = s[nat (fieldIndex + int i) := collideField ! nat (upstreamSlot E len (x, y, z) i)]"
  using assms
  by (auto simp: streamDirection_def upstreamSlot_def rbind_eq_Inr rdi_eq_Inr wri_eq_Inr Let_def
      split: if_splits)

lemma stream_pass:
  assumes "foldM (streamDirection E collideField len x y z fieldIndex) [0 ..< n] s = Inr t"
  shows "length t = length s
    \<and> (\<forall>i<n. 0 \<le> upstreamSlot E len (x, y, z) i
            \<and> upstreamSlot E len (x, y, z) i < int (length collideField)
            \<and> 0 \<le> collideField ! nat (upstreamSlot E len (x, y, z) i)
            \<and> 0 \<le> fieldIndex + int i \<and> fieldIndex + int i < int (length s)
            \<and> t ! nat (fieldIndex + int i) = collideField ! nat (upstreamSlot E len (x, y, z) i))
    \<and> (\<forall>k. 0 \<le> k \<longrightarrow> (\<forall>i<n. k \<noteq> fieldIndex + int i) \<longrightarrow> t ! nat k = s ! nat k)"
  using assms
proof (induction n arbitrary: t)
  case 0
  then show ?case by simp
next
  case (Suc n)
  from Suc.prems obtain t1 where
    a: "foldM (streamDirection E collideField len x y z fieldIndex) [0 ..< n] s = Inr t1" and
    b: "streamDirection E collideField len x y z fieldIndex n t1 = Inr t"
    by (auto simp: foldM_snoc rbind_eq_Inr)
  note ih = Suc.IH [OF a]
  note step = streamDirection_Inr [OF b]
  from ih have l1: "length t1 = length s" by simp
  from step have t: "t = t1[nat (fieldIndex + int n) := collideField ! nat (upstreamSlot E len (x, y, z) n)]"
    and r: "0 \<le> fieldIndex + int n" "fieldIndex + int n < int (length t1)"
    by simp_all
  have A: "length t = length s" using t l1 by simp
  have B: "0 \<le> upstreamSlot E len (x, y, z) i
            \<and> upstreamSlot E len (x, y, z) i < int (length collideField)
            \<and> 0 \<le> collideField ! nat (upstreamSlot E len (x, y, z) i)
            \<and> 0 \<le> fieldIndex + int i \<and> fieldIndex + int i < int (length s)
            \<and> t ! nat (fieldIndex + int i) = collideField ! nat (upstreamSlot E len (x, y, z) i)"
    if "i < Suc n" for i
  proof (cases "i = n")
    case True
    with step l1 t r show ?thesis by simp
  next
    case False
    with that have i: "i < n" by simp
    with ih have "0 \<le> fieldIndex + int i" by blast
    with r False have "nat (fieldIndex + int i) \<noteq> nat (fieldIndex + int n)" by simp
    with ih i t show ?thesis by simp
  qed
  have C: "t ! nat k = s ! nat k" if "0 \<le> k" "\<forall>i<Suc n. k \<noteq> fieldIndex + int i" for k
  proof -
    from that have "k \<noteq> fieldIndex + int n" by simp
    with that(1) r have "nat k \<noteq> nat (fieldIndex + int n)" by simp
    then have "t ! nat k = t1 ! nat k" using t by simp
    also have "\<dots> = s ! nat k" using ih that by simp
    finally show ?thesis .
  qed
  show ?case using A B C by blast
qed

lemma reconstructDirection_Inr:
  assumes "reconstructDirection E collideField dens flagField len normal x y z flagIndex
             fieldIndex i s = Inr t"
  shows "(needsReconstruction E flagField len normal x y z i = Inr False \<and> t = s)
       \<or> (needsReconstruction E flagField len normal x y z i = Inr True
          \<and> 0 \<le> fieldIndex \<and> inverseVelocityIndex E i < Q E
          \<and> fieldIndex + int (inverseVelocityIndex E i) < int (length s)
          \<and> t = s[nat (fieldIndex + int (inverseVelocityIndex E i)) :=
                   reconstructedValue E (take (Q E) (drop (nat fieldIndex) collideField))
                     (dens ! nat flagIndex) (collideField ! nat (fieldIndex + int i)) i])"
  using assms
  by (auto simp: reconstructDirection_def rbind_eq_Inr rdi_eq_Inr wri_eq_Inr cellAti_eq_Inr
      split: if_splits)

lemma reconstruct_pass:
  assumes "foldM (reconstructDirection E collideField dens flagField len normal x y z flagIndex
             fieldIndex) [0 ..< n] s = Inr t"
  shows "length t = length s
    \<and> (\<forall>k. 0 \<le> k \<longrightarrow>
          (\<forall>i<n. needsReconstruction E flagField len normal x y z i = Inr True \<longrightarrow>
                  k \<noteq> fieldIndex + int (inverseVelocityIndex E i)) \<longrightarrow>
          t ! nat k = s ! nat k)
    \<and> (\<forall>i<n. needsReconstruction E flagField len normal x y z i = Inr True \<longrightarrow>
          inverseVelocityIndex E i < Q E \<and> 0 \<le> fieldIndex)
    \<and> (\<forall>i<n. needsReconstruction E flagField len normal x y z i = Inr True \<longrightarrow>
          (\<forall>i'<n. i < i' \<longrightarrow> needsReconstruction E flagField len normal x y z i' = Inr True \<longrightarrow>
                   inverseVelocityIndex E i' \<noteq> inverseVelocityIndex E i) \<longrightarrow>
          t ! nat (fieldIndex + int (inverseVelocityIndex E i))
            = reconstructedValue E (take (Q E) (drop (nat fieldIndex) collideField))
                (dens ! nat flagIndex) (collideField ! nat (fieldIndex + int i)) i)"
  using assms
proof (induction n arbitrary: t)
  case 0
  then show ?case by simp
next
  case (Suc n)
  let ?needs = "\<lambda>i. needsReconstruction E flagField len normal x y z i = Inr True"
  let ?inv = "inverseVelocityIndex E"
  let ?rv = "\<lambda>i. reconstructedValue E (take (Q E) (drop (nat fieldIndex) collideField))
                (dens ! nat flagIndex) (collideField ! nat (fieldIndex + int i)) i"
  from Suc.prems obtain t1 where
    a: "foldM (reconstructDirection E collideField dens flagField len normal x y z flagIndex
             fieldIndex) [0 ..< n] s = Inr t1" and
    b: "reconstructDirection E collideField dens flagField len normal x y z flagIndex
             fieldIndex n t1 = Inr t"
    by (auto simp: foldM_snoc rbind_eq_Inr)
  note ih = Suc.IH [OF a]
  from ih have l1: "length t1 = length s" by simp
  from ih have ihk: "t1 ! nat k = s ! nat k"
    if "0 \<le> k" "\<forall>i<n. ?needs i \<longrightarrow> k \<noteq> fieldIndex + int (?inv i)" for k
    using that by blast
  from ih have ihr: "?inv i < Q E \<and> 0 \<le> fieldIndex" if "i < n" "?needs i" for i
    using that by blast
  from ih have ihv: "t1 ! nat (fieldIndex + int (?inv i)) = ?rv i"
    if "i < n" "?needs i" "\<forall>i'<n. i < i' \<longrightarrow> ?needs i' \<longrightarrow> ?inv i' \<noteq> ?inv i" for i
    using that by blast
  from reconstructDirection_Inr [OF b] consider
    (unchanged) "needsReconstruction E flagField len normal x y z n = Inr False" "t = t1" |
    (updated) "?needs n" "0 \<le> fieldIndex" "?inv n < Q E"
      "fieldIndex + int (?inv n) < int (length t1)"
      "t = t1[nat (fieldIndex + int (?inv n)) := ?rv n]"
    by blast
  then show ?case
  proof cases
    case unchanged
    note no = unchanged(1) and t = unchanged(2)
    have A: "length t = length s" using t l1 by simp
    have B: "t ! nat k = s ! nat k"
      if "0 \<le> k" "\<forall>i<Suc n. ?needs i \<longrightarrow> k \<noteq> fieldIndex + int (?inv i)" for k
      using that ihk [of k] t by simp
    have C: "?inv i < Q E \<and> 0 \<le> fieldIndex" if "i < Suc n" "?needs i" for i
      using that ihr [of i] no by (cases "i = n") auto
    have D: "t ! nat (fieldIndex + int (?inv i)) = ?rv i"
      if "i < Suc n" "?needs i" "\<forall>i'<Suc n. i < i' \<longrightarrow> ?needs i' \<longrightarrow> ?inv i' \<noteq> ?inv i" for i
    proof -
      from that no have "i < n" by (cases "i = n") auto
      with that ihv [of i] t show ?thesis by simp
    qed
    show ?thesis using A B C D by blast
  next
    case updated
    note yes = updated(1) and f0 = updated(2) and q = updated(3) and r = updated(4) and t = updated(5)
    have A: "length t = length s" using t l1 by simp
    have B: "t ! nat k = s ! nat k"
      if "0 \<le> k" "\<forall>i<Suc n. ?needs i \<longrightarrow> k \<noteq> fieldIndex + int (?inv i)" for k
    proof -
      from that yes have "k \<noteq> fieldIndex + int (?inv n)" by simp
      with that(1) f0 have "nat k \<noteq> nat (fieldIndex + int (?inv n))" by simp
      with t have "t ! nat k = t1 ! nat k" by simp
      with ihk [of k] that show ?thesis by simp
    qed
    have C: "?inv i < Q E \<and> 0 \<le> fieldIndex" if "i < Suc n" "?needs i" for i
      using that ihr [of i] q f0 by (cases "i = n") auto
    have D: "t ! nat (fieldIndex + int (?inv i)) = ?rv i"
      if "i < Suc n" "?needs i" "\<forall>i'<Suc n. i < i' \<longrightarrow> ?needs i' \<longrightarrow> ?inv i' \<noteq> ?inv i" for i
    proof (cases "i = n")
      case True
      with t r f0 show ?thesis by simp
    next
      case False
      with that have i: "i < n" by simp
      with that yes have "?inv n \<noteq> ?inv i" by simp
      with f0 have "nat (fieldIndex + int (?inv n)) \<noteq> nat (fieldIndex + int (?inv i))" by simp
      with t have "t ! nat (fieldIndex + int (?inv i)) = t1 ! nat (fieldIndex + int (?inv i))"
        by simp
      with ihv [of i] i that show ?thesis by simp
    qed
    show ?thesis using A B C D by blast
  qed
qed

lemma slot_index_unique:
  fixes a b :: int and q j j' :: nat
  assumes "a * int q + int j = b * int q + int j'" "j < q" "j' < q"
  shows "a = b"
proof -
  have "(a * int q + int j) div int q = a" using assms(2) by simp
  moreover have "(b * int q + int j') div int q = b" using assms(3) by simp
  ultimately show ?thesis using assms(1) by simp
qed

lemma streamCell_Inr:
  assumes "streamCell E collideField ms dens len flagField (x, y, z) s = Inr t"
  shows "length t = length s
    \<and> (\<forall>k. 0 \<le> k \<longrightarrow> (\<forall>j<Q E. k \<noteq> cellSlot E len (x, y, z) j) \<longrightarrow> t ! nat k = s ! nat k)
    \<and> (flagOf E len flagField (x, y, z) = FLUID \<or> flagOf E len flagField (x, y, z) = INTERFACE \<longrightarrow>
         (\<forall>i<Q E. 0 \<le> cellSlot E len (x, y, z) i
            \<and> 0 \<le> upstreamSlot E len (x, y, z) i \<and> upstreamSlot E len (x, y, z) i < int (length collideField)
            \<and> 0 \<le> collideField ! nat (upstreamSlot E len (x, y, z) i)
            \<and> (flagOf E len flagField (x, y, z) = FLUID
                 \<or> \<not> reconstructed E collideField ms dens len flagField (x, y, z) i \<longrightarrow>
                t ! nat (cellSlot E len (x, y, z) i) = collideField ! nat (upstreamSlot E len (x, y, z) i))))
    \<and> (flagOf E len flagField (x, y, z) = INTERFACE \<longrightarrow>
         (\<forall>i<Q E. reconstructs E collideField ms dens len flagField (x, y, z) i \<longrightarrow>
            (\<forall>i'<Q E. i < i' \<longrightarrow> reconstructs E collideField ms dens len flagField (x, y, z) i' \<longrightarrow>
                 inverseVelocityIndex E i' \<noteq> inverseVelocityIndex E i) \<longrightarrow>
            t ! nat (cellSlot E len (x, y, z) (inverseVelocityIndex E i))
              = reconstructedValue E (take (Q E) (drop (nat (cellSlot E len (x, y, z) 0)) collideField))
                  (dens ! nat (indexForCell E x y z len))
                  (collideField ! nat (cellSlot E len (x, y, z) i)) i))"
proof -
  let ?c = "(x, y, z)"
  let ?idx = "indexForCell E x y z len"
  let ?fi = "?idx * int (Q E)"
  let ?normal = "computeSurfaceNormal E collideField dens flagField len ms (x, y, z)"
  have slot: "cellSlot E len ?c j = ?fi + int j" for j by (simp add: cellSlot_def)
  have fl: "flagOf E len flagField ?c = flagField ! nat ?idx" by (simp add: flagOf_def)
  have rec: "reconstructs E collideField ms dens len flagField ?c i
      \<longleftrightarrow> needsReconstruction E flagField len ?normal x y z i = Inr True" for i
    by (simp add: reconstructs_def)
  from assms obtain s1 where
    pass1: "(if flagField ! nat ?idx = FLUID \<or> flagField ! nat ?idx = INTERFACE
             then foldM (streamDirection E collideField len x y z ?fi) [0 ..< Q E] s
             else Inr s) = Inr s1" and
    pass2: "(if flagField ! nat ?idx = INTERFACE
             then foldM (reconstructDirection E collideField dens flagField len ?normal x y z
                           ?idx ?fi) [0 ..< Q E] s1
             else Inr s1) = Inr t"
    by (auto simp: streamCell_def rbind_eq_Inr rdi_eq_Inr Let_def cong: if_cong)
  show ?thesis
  proof (cases "flagField ! nat ?idx = FLUID \<or> flagField ! nat ?idx = INTERFACE")
    case False
    with pass1 pass2 have "t = s" by simp
    with False show ?thesis by (simp add: fl)
  next
    case active: True
    with pass1 have p1: "foldM (streamDirection E collideField len x y z ?fi) [0 ..< Q E] s = Inr s1"
      by simp
    note sp = stream_pass [OF p1]
    show ?thesis
    proof (cases "flagField ! nat ?idx = INTERFACE")
      case False
      with pass2 have "t = s1" by simp
      with sp active False show ?thesis by (simp add: fl slot upstreamSlot_def)
    next
      case True
      with pass2 have p2: "foldM (reconstructDirection E collideField dens flagField len ?normal
              x y z ?idx ?fi) [0 ..< Q E] s1 = Inr t"
        by simp
      note rp = reconstruct_pass [OF p2]
      from rp have invQ: "inverseVelocityIndex E i < Q E"
        if "i < Q E" "needsReconstruction E flagField len ?normal x y z i = Inr True" for i
        using that by blast
      have A: "length t = length s" using sp rp by simp
      have B: "t ! nat k = s ! nat k" if "0 \<le> k" "\<forall>j<Q E. k \<noteq> cellSlot E len ?c j" for k
      proof -
        have "\<forall>i<Q E. needsReconstruction E flagField len ?normal x y z i = Inr True \<longrightarrow>
                  k \<noteq> ?fi + int (inverseVelocityIndex E i)"
          using that(2) invQ by (auto simp: slot)
        with rp that(1) have "t ! nat k = s1 ! nat k" by blast
        also have "\<dots> = s ! nat k" using sp that by (auto simp: slot)
        finally show ?thesis .
      qed
      have C: "0 \<le> cellSlot E len ?c i
            \<and> 0 \<le> upstreamSlot E len ?c i \<and> upstreamSlot E len ?c i < int (length collideField)
            \<and> 0 \<le> collideField ! nat (upstreamSlot E len ?c i)
            \<and> (flagOf E len flagField ?c = FLUID
                 \<or> \<not> reconstructed E collideField ms dens len flagField ?c i \<longrightarrow>
                t ! nat (cellSlot E len ?c i) = collideField ! nat (upstreamSlot E len ?c i))"
        if i: "i < Q E" for i
      proof -
        from sp i have s1: "0 \<le> ?fi + int i" "0 \<le> upstreamSlot E len ?c i"
          "upstreamSlot E len ?c i < int (length collideField)"
          "0 \<le> collideField ! nat (upstreamSlot E len ?c i)"
          "s1 ! nat (?fi + int i) = collideField ! nat (upstreamSlot E len ?c i)"
          by simp_all
        have "t ! nat (?fi + int i) = s1 ! nat (?fi + int i)"
          if "\<not> reconstructed E collideField ms dens len flagField ?c i"
        proof -
          from that have "\<forall>i'<Q E. needsReconstruction E flagField len ?normal x y z i' = Inr True \<longrightarrow>
                  ?fi + int i \<noteq> ?fi + int (inverseVelocityIndex E i')"
            by (auto simp: reconstructed_def rec)
          with rp s1(1) show ?thesis by blast
        qed
        with s1 True show ?thesis by (simp add: slot fl)
      qed
      have D: "t ! nat (cellSlot E len ?c (inverseVelocityIndex E i))
              = reconstructedValue E (take (Q E) (drop (nat (cellSlot E len ?c 0)) collideField))
                  (dens ! nat (indexForCell E x y z len))
                  (collideField ! nat (cellSlot E len ?c i)) i"
        if "i < Q E" "reconstructs E collideField ms dens len flagField ?c i"
          "\<forall>i'<Q E. i < i' \<longrightarrow> reconstructs E collideField ms dens len flagField ?c i' \<longrightarrow>
                 inverseVelocityIndex E i' \<noteq> inverseVelocityIndex E i" for i
        using rp that unfolding rec slot by simp
      show ?thesis using A B C D by blast
    qed
  qed
qed

lemma foldM_split_last:
  assumes "foldM f xs s = Inr t" and "x \<in> set xs"
  shows "\<exists>ys zs s1 s2. xs = ys @ x # zs \<and> x \<notin> set zs \<and> foldM f ys s = Inr s1
           \<and> f x s1 = Inr s2 \<and> foldM f zs s2 = Inr t"
proof -
  from split_list_last [OF assms(2)] obtain ys zs where
    xs: "xs = ys @ x # zs" and nz: "x \<notin> set zs" by blast
  from assms(1) [unfolded xs foldM_append] obtain s1 where
    a: "foldM f ys s = Inr s1" and "foldM f (x # zs) s1 = Inr t"
    by (auto simp: rbind_eq_Inr)
  then obtain s2 where "f x s1 = Inr s2" "foldM f zs s2 = Inr t"
    by (auto simp: rbind_eq_Inr)
  with xs nz a show ?thesis by blast
qed

lemma foldM_preserve:
  assumes "foldM f xs s = Inr t" and "P s"
    and "\<And>x a b. x \<in> set xs \<Longrightarrow> P a \<Longrightarrow> f x a = Inr b \<Longrightarrow> P b"
  shows "P t"
  using assms
proof (induction xs arbitrary: s)
  case Nil
  then show ?case by simp
next
  case (Cons x xs)
  from Cons.prems(1) obtain s1 where a: "f x s = Inr s1" and b: "foldM f xs s1 = Inr t"
    by (auto simp: rbind_eq_Inr)
  have s1: "P s1" by (rule Cons.prems(3) [OF _ Cons.prems(2) a]) simp
  show ?case
  proof (rule Cons.IH [OF b s1])
    fix y a' b'
    assume "y \<in> set xs" "P a'" "f y a' = Inr b'"
    then show "P b'" using Cons.prems(3) [of y a' b'] by simp
  qed
qed

lemma doStreaming_cell:
  assumes run: "doStreaming E collideField s0 ms dens len flagField = Inr t"
    and mem: "(x, y, z) \<in> set (cells len)"
    and inj: "inj_on (\<lambda>(x, y, z). indexForCell E x y z len) (set (cells len))"
    and act: "flagOf E len flagField (x, y, z) = FLUID \<or> flagOf E len flagField (x, y, z) = INTERFACE"
  shows "\<exists>s1 s2. streamCell E collideField ms dens len flagField (x, y, z) s1 = Inr s2
           \<and> (\<forall>j<Q E. t ! nat (cellSlot E len (x, y, z) j) = s2 ! nat (cellSlot E len (x, y, z) j))"
proof -
  let ?c = "(x, y, z)"
  from foldM_split_last [OF run [unfolded doStreaming_def] mem] obtain ys zs s1 s2 where
    xs: "cells len = ys @ ?c # zs" and nz: "?c \<notin> set zs"
    and step: "streamCell E collideField ms dens len flagField ?c s1 = Inr s2"
    and rest: "foldM (streamCell E collideField ms dens len flagField) zs s2 = Inr t"
    by blast
  from streamCell_Inr [OF step] act have nonneg: "0 \<le> cellSlot E len ?c j" if "j < Q E" for j
    using that by blast
  have "t ! nat (cellSlot E len ?c j) = s2 ! nat (cellSlot E len ?c j)" if j: "j < Q E" for j
  proof (rule foldM_preserve [OF rest, where P = "\<lambda>a. a ! nat (cellSlot E len ?c j) = s2 ! nat (cellSlot E len ?c j)"])
    show "s2 ! nat (cellSlot E len ?c j) = s2 ! nat (cellSlot E len ?c j)" by simp
  next
    fix c' a b
    assume c': "c' \<in> set zs" and pa: "a ! nat (cellSlot E len ?c j) = s2 ! nat (cellSlot E len ?c j)"
      and st: "streamCell E collideField ms dens len flagField c' a = Inr b"
    obtain x' y' z' where cc: "c' = (x', y', z')" by (cases c') auto
    from c' nz have ne: "c' \<noteq> ?c" by auto
    from c' xs have "c' \<in> set (cells len)" by simp
    with mem ne have idx: "indexForCell E x' y' z' len \<noteq> indexForCell E x y z len"
      unfolding cc using inj_onD [OF inj, of "(x', y', z')" "(x, y, z)"] by auto
    have "cellSlot E len ?c j \<noteq> cellSlot E len c' j'" if "j' < Q E" for j'
    proof
      assume "cellSlot E len ?c j = cellSlot E len c' j'"
      then have "indexForCell E x y z len * int (Q E) + int j
                 = indexForCell E x' y' z' len * int (Q E) + int j'"
        by (simp add: cellSlot_def cc)
      from slot_index_unique [OF this j that] idx show False by simp
    qed
    with streamCell_Inr [OF st [unfolded cc]] nonneg [OF j]
    have "b ! nat (cellSlot E len ?c j) = a ! nat (cellSlot E len ?c j)"
      unfolding cc by blast
    with pa show "b ! nat (cellSlot E len ?c j) = s2 ! nat (cellSlot E len ?c j)" by simp
  qed
  with step show ?thesis by blast
qed

section \<open>The streaming engine on the channel\<close>

lemmas stream_eval =
  streamCell_def streamDirection_def reconstructDirection_def
  needsReconstruction_def reconstructedValue_def neighbouring_fi_cell_index_def
  rdi_def wri_def cellAti_def rd_def wr_def cellAt_def
  lineLattice_simps rowMajorIndex_def lineVelocities_def lineInverse_def massNormal_def massAt_def
  momentVelocity_def lineFeq_def lineWeight_def Let_def upt_conv_Cons nth_append
  channel_def channelFlags_def channelMass_def channelDensity_def

lemma channel_cells: "cells channel = 
  [(0,0,0),(1,0,0),(2,0,0),(3,0,0),(4,0,0),(0,1,0),(1,1,0),(2,1,0),(3,1,0),(4,1,0),(0,2,0),(1,2,0),(2,2,0),(3,2,0),(4,2,0),
   (0,0,1),(1,0,1),(2,0,1),(3,0,1),(4,0,1),(0,1,1),(1,1,1),(2,1,1),(3,1,1),(4,1,1),(0,2,1),(1,2,1),(2,2,1),(3,2,1),(4,2,1),
   (0,0,2),(1,0,2),(2,0,2),(3,0,2),(4,0,2),(0,1,2),(1,1,2),(2,1,2),(3,1,2),(4,1,2),(0,2,2),(1,2,2),(2,2,2),(3,2,2),(4,2,2)]"
  by (simp add: cells_def range0_def channel_def upt_conv_Cons)

lemma channel_run:
  "doStreaming lineLattice channelCollide (replicate 135 0) channelMass channelDensity channel channelFlags
     = Inr channelStreamed"
  unfolding doStreaming_def channel_cells
  by (simp add: stream_eval channelCollide_def channelStreamed_def)

lemma channel_stale_run:
  "doStreaming lineLattice channelCollideStale (replicate 135 0) channelMass channelDensity channel channelFlags
     = Inl AssertionFailed"
  unfolding doStreaming_def channel_cells
  by (simp add: stream_eval channelCollideStale_def)

lemma channel_inj:
  "inj_on (\<lambda>(x, y, z). indexForCell lineLattice x y z channel) (set (cells channel))"
proof -
  have "distinct (map (\<lambda>(x, y, z). indexForCell lineLattice x y z channel) (cells channel))"
    unfolding channel_cells by (simp add: lineLattice_simps rowMajorIndex_def channel_def)
  then show ?thesis by (simp add: distinct_map)
qed

lemma lineInverse_inj: "inj_on (inverseVelocityIndex lineLattice) {..<Q lineLattice}"
  by (auto simp: inj_on_def lineLattice_simps lineInverse_def)

lemma bex_lessThan_3: "(\<exists>i\<in>{..<(3::nat)}. P i) \<longleftrightarrow> P 0 \<or> P 1 \<or> P 2"
proof -
  have "{..<(3::nat)} = {0, 1, 2}" by auto
  then show ?thesis by simp
qed

lemma channel_membership: "(2, 1, 1) \<in> set (cells channel)"
  unfolding channel_cells by simp

lemma channel_interface: "flagOf lineLattice channel channelFlags (2, 1, 1) = INTERFACE"
  by (simp add: flagOf_def stream_eval)

lemma channel_reconstructs:
  "reconstructs lineLattice channelCollide channelMass channelDensity channel channelFlags (2, 1, 1) (Suc 0)"
  "\<not> reconstructs lineLattice channelCollide channelMass channelDensity channel channelFlags (2, 1, 1) 2"
  "\<not> reconstructs lineLattice channelCollide channelMass channelDensity channel channelFlags (2, 1, 1) 0"
  by (simp_all add: reconstructs_def stream_eval)

lemma channel_reconstructed:
  "reconstructed lineLattice channelCollide channelMass channelDensity channel channelFlags (2, 1, 1) 2"
  "\<not> reconstructed lineLattice channelCollide channelMass channelDensity channel channelFlags (2, 1, 1) (Suc 0)"
  by (simp_all add: reconstructed_def channel_reconstructs lineLattice_simps lineInverse_def bex_lessThan_3)

lemma channel_index: "indexForCell lineLattice 2 1 1 channel = 22"
  by (simp add: lineLattice_simps rowMajorIndex_def channel_def)

lemma channel_slots:
  "cellSlot lineLattice channel (2, 1, 1) 0 = 66"
  "cellSlot lineLattice channel (2, 1, 1) (Suc 0) = 67"
  "cellSlot lineLattice channel (2, 1, 1) 2 = 68"
  "upstreamSlot lineLattice channel (2, 1, 1) (Suc 0) = 64"
  "upstreamSlot lineLattice channel (2, 1, 1) 2 = 71"
  by (simp_all add: cellSlot_def upstreamSlot_def stream_eval)

section \<open>The streaming engine: streamed and reconstructed values\<close>

text \<open>
  C6. When \<open>doStreaming\<close> returns, for every FLUID or INTERFACE cell of the grid and
  every direction \<open>i\<close> that is not reconstructed (the cell is FLUID, or no direction that
  passes the test has \<open>i\<close> as its inverse), \<open>streamField[cell][i]\<close> holds exactly
  \<open>collideField[cell - velocity[i]][i]\<close>. The index function, which is not among the
  sources, is assumed to give different cells of the grid different indices.
\<close>

theorem streamed_value_is_upstream_value:
  assumes "doStreaming E collideField streamField ms dens len flagField = Inr streamField'"
    and "(x, y, z) \<in> set (cells len)"
    and "inj_on (\<lambda>(x, y, z). indexForCell E x y z len) (set (cells len))"
    and "flagOf E len flagField (x, y, z) = FLUID \<or> flagOf E len flagField (x, y, z) = INTERFACE"
    and "i < Q E"
    and "flagOf E len flagField (x, y, z) = FLUID
         \<or> \<not> reconstructed E collideField ms dens len flagField (x, y, z) i"
  shows "streamField' ! nat (cellSlot E len (x, y, z) i)
           = collideField ! nat (upstreamSlot E len (x, y, z) i)"
proof -
  from doStreaming_cell [OF assms(1-4)] obtain s1 s2 where
    step: "streamCell E collideField ms dens len flagField (x, y, z) s1 = Inr s2" and
    fin: "\<forall>j<Q E. streamField' ! nat (cellSlot E len (x, y, z) j) = s2 ! nat (cellSlot E len (x, y, z) j)"
    by blast
  from streamCell_Inr [OF step] assms(4,5,6)
  have "s2 ! nat (cellSlot E len (x, y, z) i) = collideField ! nat (upstreamSlot E len (x, y, z) i)"
    by blast
  with fin assms(5) show ?thesis by simp
qed

text \<open>Direction 1 of the INTERFACE cell (2,1,1) of the channel: slot 67 receives the
  value of slot 64, direction 1 of the FLUID cell (1,1,1).\<close>

theorem streamed_value_is_upstream_value_witness:
  "doStreaming lineLattice channelCollide (replicate 135 0) channelMass channelDensity channel
     channelFlags = Inr channelStreamed
   \<and> channelStreamed ! 67 = channelCollide ! 64 \<and> channelStreamed ! 67 = 1 / 6"
proof -
  have q: "Suc 0 < Q lineLattice" by (simp add: lineLattice_simps)
  have f: "flagOf lineLattice channel channelFlags (2, 1, 1) = FLUID
         \<or> flagOf lineLattice channel channelFlags (2, 1, 1) = INTERFACE"
    by (simp add: channel_interface)
  have r: "flagOf lineLattice channel channelFlags (2, 1, 1) = FLUID
         \<or> \<not> reconstructed lineLattice channelCollide channelMass channelDensity channel
               channelFlags (2, 1, 1) (Suc 0)"
    by (simp add: channel_reconstructed)
  from streamed_value_is_upstream_value [OF channel_run channel_membership channel_inj f q r]
  have "channelStreamed ! 67 = channelCollide ! 64" by (simp add: channel_slots)
  moreover have "channelCollide ! 64 = 1 / 6" by (simp add: channelCollide_def nth_append)
  ultimately show ?thesis using channel_run by simp
qed

text \<open>
  C7. When \<open>doStreaming\<close> returns, for every INTERFACE cell of the grid and every
  direction \<open>i\<close> that passes the test, \<open>streamField[cell][inverse(i)]\<close> is
  \<open>feq[inverse(i)] + feq[i] - collideField[cell][i]\<close>, with \<open>feq\<close> the equilibrium at
  density 1 and the velocity computed from the cell's values in the collide field and
  the cell's entry in the density field. The inverse-direction table and the index
  function, which are not among the sources, are assumed to be injective on the
  directions and on the cells of the grid.
\<close>

theorem reconstructed_value_is_balance:
  assumes "doStreaming E collideField streamField ms dens len flagField = Inr streamField'"
    and "(x, y, z) \<in> set (cells len)"
    and "inj_on (\<lambda>(x, y, z). indexForCell E x y z len) (set (cells len))"
    and "flagOf E len flagField (x, y, z) = INTERFACE"
    and "i < Q E"
    and "reconstructs E collideField ms dens len flagField (x, y, z) i"
    and "inj_on (inverseVelocityIndex E) {..<Q E}"
    and "feq = computeFeq E 1
                 (computeVelocity E (take (Q E) (drop (nat (cellSlot E len (x, y, z) 0)) collideField))
                    (dens ! nat (indexForCell E x y z len)))"
  shows "streamField' ! nat (cellSlot E len (x, y, z) (inverseVelocityIndex E i))
           = feq (inverseVelocityIndex E i) + feq i - collideField ! nat (cellSlot E len (x, y, z) i)"
proof -
  have act: "flagOf E len flagField (x, y, z) = FLUID \<or> flagOf E len flagField (x, y, z) = INTERFACE"
    using assms(4) by simp
  from doStreaming_cell [OF assms(1-3) act] obtain s1 s2 where
    step: "streamCell E collideField ms dens len flagField (x, y, z) s1 = Inr s2" and
    fin: "\<forall>j<Q E. streamField' ! nat (cellSlot E len (x, y, z) j) = s2 ! nat (cellSlot E len (x, y, z) j)"
    by blast
  have later: "\<forall>i'<Q E. i < i' \<longrightarrow> reconstructs E collideField ms dens len flagField (x, y, z) i' \<longrightarrow>
                 inverseVelocityIndex E i' \<noteq> inverseVelocityIndex E i"
    using assms(5,7) by (auto dest: inj_onD)
  from streamCell_Inr [OF step] assms(4,5,6) later
  have v: "s2 ! nat (cellSlot E len (x, y, z) (inverseVelocityIndex E i))
              = reconstructedValue E (take (Q E) (drop (nat (cellSlot E len (x, y, z) 0)) collideField))
                  (dens ! nat (indexForCell E x y z len))
                  (collideField ! nat (cellSlot E len (x, y, z) i)) i"
    by blast
  have "inverseVelocityIndex E i < Q E"
  proof -
    obtain s1' where
      "(if flagField ! nat (indexForCell E x y z len) = INTERFACE
             then foldM (reconstructDirection E collideField dens flagField len
                 (computeSurfaceNormal E collideField dens flagField len ms (x, y, z)) x y z
                           (indexForCell E x y z len) (indexForCell E x y z len * int (Q E))) [0 ..< Q E] s1'
             else Inr s1') = Inr s2"
      using step by (auto simp: streamCell_def rbind_eq_Inr rdi_eq_Inr Let_def cong: if_cong)
    with assms(4) have "foldM (reconstructDirection E collideField dens flagField len
                 (computeSurfaceNormal E collideField dens flagField len ms (x, y, z)) x y z
                           (indexForCell E x y z len) (indexForCell E x y z len * int (Q E))) [0 ..< Q E] s1' = Inr s2"
      by (simp add: flagOf_def)
    from reconstruct_pass [OF this] assms(5,6) show ?thesis
      by (auto simp: reconstructs_def)
  qed
  with fin v show ?thesis
    by (simp add: reconstructedValue_def assms(8) Let_def)
qed

text \<open>Direction 1 of the INTERFACE cell (2,1,1) points to the EMPTY cell: slot 68, the
  inverse direction, receives \<open>73/600 + 133/600 - 1/4 = 7/75\<close>.\<close>

theorem reconstructed_value_is_balance_witness:
  "doStreaming lineLattice channelCollide (replicate 135 0) channelMass channelDensity channel
     channelFlags = Inr channelStreamed
   \<and> channelStreamed ! 68
       = lineFeq 1 (1 / 10, 0, 0) 2 + lineFeq 1 (1 / 10, 0, 0) 1 - channelCollide ! 67
   \<and> channelStreamed ! 68 = 7 / 75"
proof -
  have q: "Suc 0 < Q lineLattice" by (simp add: lineLattice_simps)
  have feq: "lineFeq 1 (1 / 10, 0, 0)
      = computeFeq lineLattice 1
          (computeVelocity lineLattice
             (take (Q lineLattice) (drop (nat (cellSlot lineLattice channel (2, 1, 1) 0)) channelCollide))
             (channelDensity ! nat (indexForCell lineLattice 2 1 1 channel)))"
    by (simp add: channel_slots channel_index)
       (simp add: lineLattice_simps channelCollide_def channelDensity_def momentVelocity_def)
  from reconstructed_value_is_balance [OF channel_run channel_membership channel_inj
      channel_interface q channel_reconstructs(1) lineInverse_inj feq]
  have "channelStreamed ! 68
       = lineFeq 1 (1 / 10, 0, 0) 2 + lineFeq 1 (1 / 10, 0, 0) 1 - channelCollide ! 67"
    by (simp add: channel_slots lineLattice_simps lineInverse_def)
  moreover have "channelStreamed ! 68 = 7 / 75" by (simp add: channelStreamed_def)
  ultimately show ?thesis using channel_run by simp
qed

lemma rbind_eq_Inl:
  "rbind m f = Inl e \<longleftrightarrow> m = Inl e \<or> (\<exists>v. m = Inr v \<and> f v = Inl e)"
  by (cases m) simp_all

lemma foldM_never:
  "(\<And>x s. f x s \<noteq> Inl e) \<Longrightarrow> foldM f xs s \<noteq> Inl e"
  by (induction xs arbitrary: s) (simp_all add: rbind_eq_Inl)

lemma access_finite:
  "rdi xs k \<noteq> Inl (NonFinite d)" "wri xs k v \<noteq> Inl (NonFinite d)"
  "cellAti E ds k \<noteq> Inl (NonFinite d)"
  by (simp_all add: rdi_def wri_def cellAti_def rd_def wr_def cellAt_def)

lemma streamDirection_finite:
  "streamDirection E collideField len x y z fieldIndex i s \<noteq> Inl (NonFinite d)"
  by (simp add: streamDirection_def Let_def rbind_eq_Inl access_finite)

lemma reconstructDirection_finite:
  "reconstructDirection E collideField dens flagField len normal x y z flagIndex fieldIndex i s
     \<noteq> Inl (NonFinite d)"
proof -
  have "needsReconstruction E flagField len normal x y z i \<noteq> Inl (NonFinite d)"
    by (simp add: needsReconstruction_def rbind_eq_Inl access_finite Let_def split: prod.splits)
  then show ?thesis
    by (simp add: reconstructDirection_def rbind_eq_Inl access_finite)
qed

lemma streamCell_finite:
  "streamCell E collideField ms dens len flagField c s \<noteq> Inl (NonFinite d)"
  by (cases c)
     (simp add: streamCell_def Let_def rbind_eq_Inl access_finite
        foldM_never [OF streamDirection_finite] foldM_never [OF reconstructDirection_finite])

lemma doStreaming_finite:
  "doStreaming E collideField streamField ms dens len flagField \<noteq> Inl (NonFinite d)"
  unfolding doStreaming_def by (rule foldM_never) (rule streamCell_finite)

lemma doStreaming_outcomes:
  "(\<exists>t. doStreaming E collideField streamField ms dens len flagField = Inr t)
   \<or> doStreaming E collideField streamField ms dens len flagField = Inl AssertionFailed
   \<or> doStreaming E collideField streamField ms dens len flagField = Inl OutOfRange"
proof (cases "doStreaming E collideField streamField ms dens len flagField")
  case (Inl e)
  then show ?thesis using doStreaming_finite [of E collideField streamField ms dens len flagField]
    by (cases e) auto
next
  case (Inr t)
  then show ?thesis by simp
qed

lemma streamDirection_negative:
  assumes "0 \<le> upstreamSlot E len (x, y, z) i"
    and "upstreamSlot E len (x, y, z) i < int (length collideField)"
    and "collideField ! nat (upstreamSlot E len (x, y, z) i) < 0"
    and "0 \<le> fieldIndex + int i" and "fieldIndex + int i < int (length s)"
  shows "streamDirection E collideField len x y z fieldIndex i s = Inl AssertionFailed"
  using assms
  by (simp add: streamDirection_def upstreamSlot_def rdi_def rd_def wri_def wr_def Let_def
      nat_less_iff)

lemma reconstructDirection_no_assert:
  "reconstructDirection E collideField dens flagField len normal x y z flagIndex fieldIndex i s
     \<noteq> Inl AssertionFailed"
proof -
  have a: "rdi xs k \<noteq> Inl AssertionFailed" for xs :: "'a list" and k
    by (simp add: rdi_def access_no_assert)
  have b: "wri xs k v \<noteq> Inl AssertionFailed" for xs :: "'a list" and k v
    by (simp add: wri_def access_no_assert)
  have c: "cellAti E xs k \<noteq> Inl AssertionFailed" for xs k
    by (simp add: cellAti_def access_no_assert)
  have d: "needsReconstruction E flagField len normal x y z i \<noteq> Inl AssertionFailed"
    by (simp add: needsReconstruction_def rbind_eq_assert a Let_def split: prod.splits)
  show ?thesis
    by (simp add: reconstructDirection_def rbind_eq_assert a b c d)
qed

text \<open>
  C8, as the code has it. The assertion stands in the streaming pass, which runs over
  every direction of every FLUID and INTERFACE cell before any reconstruction: when
  \<open>doStreaming\<close> returns, every streamed value of such a cell was non-negative, also one
  that the second pass overwrote afterwards, and the values that stay (every direction
  of a FLUID cell, the directions of an INTERFACE cell that are not reconstructed) are
  non-negative in the result; a negative streamed value makes the iteration that
  streams it fail its assertion, and the call end in a failed assertion (or in an
  access out of range); the reconstruction of a direction never fails an assertion, so
  the reconstructed value itself is not checked.
\<close>

theorem streamed_values_are_checked:
  "(doStreaming E collideField streamField ms dens len flagField = Inr streamField'
      \<and> (x, y, z) \<in> set (cells len)
      \<and> inj_on (\<lambda>(x, y, z). indexForCell E x y z len) (set (cells len))
      \<and> (flagOf E len flagField (x, y, z) = FLUID \<or> flagOf E len flagField (x, y, z) = INTERFACE)
      \<and> i < Q E
    \<longrightarrow> 0 \<le> collideField ! nat (upstreamSlot E len (x, y, z) i)
      \<and> (flagOf E len flagField (x, y, z) = FLUID
            \<or> \<not> reconstructed E collideField ms dens len flagField (x, y, z) i
          \<longrightarrow> 0 \<le> streamField' ! nat (cellSlot E len (x, y, z) i)))
   \<and> ((x, y, z) \<in> set (cells len)
      \<and> inj_on (\<lambda>(x, y, z). indexForCell E x y z len) (set (cells len))
      \<and> (flagOf E len flagField (x, y, z) = FLUID \<or> flagOf E len flagField (x, y, z) = INTERFACE)
      \<and> i < Q E
      \<and> collideField ! nat (upstreamSlot E len (x, y, z) i) < 0
    \<longrightarrow> doStreaming E collideField streamField ms dens len flagField = Inl AssertionFailed
      \<or> doStreaming E collideField streamField ms dens len flagField = Inl OutOfRange)
   \<and> (0 \<le> upstreamSlot E len (x, y, z) i
      \<and> upstreamSlot E len (x, y, z) i < int (length collideField)
      \<and> collideField ! nat (upstreamSlot E len (x, y, z) i) < 0
      \<and> 0 \<le> fieldIndex + int i \<and> fieldIndex + int i < int (length s)
    \<longrightarrow> streamDirection E collideField len x y z fieldIndex i s = Inl AssertionFailed)
   \<and> reconstructDirection E collideField dens flagField len normal x y z flagIndex fieldIndex i s
       \<noteq> Inl AssertionFailed"
proof -
  have first: "0 \<le> collideField ! nat (upstreamSlot E len (x, y, z) i)
      \<and> (flagOf E len flagField (x, y, z) = FLUID
            \<or> \<not> reconstructed E collideField ms dens len flagField (x, y, z) i
          \<longrightarrow> 0 \<le> t ! nat (cellSlot E len (x, y, z) i))"
    if run: "doStreaming E collideField streamField ms dens len flagField = Inr t"
      and mem: "(x, y, z) \<in> set (cells len)"
      and inj: "inj_on (\<lambda>(x, y, z). indexForCell E x y z len) (set (cells len))"
      and act: "flagOf E len flagField (x, y, z) = FLUID \<or> flagOf E len flagField (x, y, z) = INTERFACE"
      and i: "i < Q E" for t
  proof -
    from doStreaming_cell [OF run mem inj act] obtain s1 s2 where
      step: "streamCell E collideField ms dens len flagField (x, y, z) s1 = Inr s2" and
      fin: "\<forall>j<Q E. t ! nat (cellSlot E len (x, y, z) j) = s2 ! nat (cellSlot E len (x, y, z) j)"
      by blast
    from streamCell_Inr [OF step] act i
    have nonneg: "0 \<le> collideField ! nat (upstreamSlot E len (x, y, z) i)" by blast
    have "0 \<le> t ! nat (cellSlot E len (x, y, z) i)"
      if "flagOf E len flagField (x, y, z) = FLUID
            \<or> \<not> reconstructed E collideField ms dens len flagField (x, y, z) i"
    proof -
      from that streamCell_Inr [OF step] act i
      have "s2 ! nat (cellSlot E len (x, y, z) i) = collideField ! nat (upstreamSlot E len (x, y, z) i)"
        by blast
      with fin i nonneg show ?thesis by simp
    qed
    with nonneg show ?thesis by blast
  qed
  have second: "doStreaming E collideField streamField ms dens len flagField = Inl AssertionFailed
      \<or> doStreaming E collideField streamField ms dens len flagField = Inl OutOfRange"
    if "(x, y, z) \<in> set (cells len)"
      and "inj_on (\<lambda>(x, y, z). indexForCell E x y z len) (set (cells len))"
      and "flagOf E len flagField (x, y, z) = FLUID \<or> flagOf E len flagField (x, y, z) = INTERFACE"
      and "i < Q E"
      and neg: "collideField ! nat (upstreamSlot E len (x, y, z) i) < 0"
  proof -
    have "doStreaming E collideField streamField ms dens len flagField \<noteq> Inr t" for t
      using first [of t] that by auto
    with doStreaming_outcomes [of E collideField streamField ms dens len flagField]
    show ?thesis by blast
  qed
  have third: "streamDirection E collideField len x y z fieldIndex i s = Inl AssertionFailed"
    if "0 \<le> upstreamSlot E len (x, y, z) i
      \<and> upstreamSlot E len (x, y, z) i < int (length collideField)
      \<and> collideField ! nat (upstreamSlot E len (x, y, z) i) < 0
      \<and> 0 \<le> fieldIndex + int i \<and> fieldIndex + int i < int (length s)"
    using that by (intro streamDirection_negative) simp_all
  show ?thesis
    using first [of streamField'] second third
      reconstructDirection_no_assert [of E collideField dens flagField len normal x y z flagIndex
        fieldIndex i s]
    by blast
qed

text \<open>The INTERFACE cell (2,1,1) of the channel: direction 1 keeps its streamed value,
  direction 2 is reconstructed and its streamed value, read from the EMPTY cell, was
  checked all the same; with the stale collide field that value is negative, the
  iteration fails and so does the call.\<close>

theorem streamed_values_are_checked_witness:
  "0 \<le> channelCollide ! 64 \<and> 0 \<le> channelStreamed ! 67 \<and> 0 \<le> channelCollide ! 71
   \<and> channelCollideStale ! 71 < 0
   \<and> streamDirection lineLattice channelCollideStale channel 2 1 1 66 2 (replicate 135 0)
       = Inl AssertionFailed
   \<and> doStreaming lineLattice channelCollideStale (replicate 135 0) channelMass channelDensity
        channel channelFlags = Inl AssertionFailed"
proof -
  have q: "Suc 0 < Q lineLattice" "2 < Q lineLattice" by (simp_all add: lineLattice_simps)
  have f: "flagOf lineLattice channel channelFlags (2, 1, 1) = FLUID
         \<or> flagOf lineLattice channel channelFlags (2, 1, 1) = INTERFACE"
    by (simp add: channel_interface)
  have stale: "channelCollideStale ! 71 < 0" by (simp add: channelCollideStale_def nth_append)
  note one = streamed_values_are_checked [of lineLattice channelCollide "replicate 135 0"
      channelMass channelDensity channel channelFlags channelStreamed 2 1 1 "Suc 0" 66 "replicate 135 0"
      "(1 / 2, 0, 0)" 22]
  note two = streamed_values_are_checked [of lineLattice channelCollide "replicate 135 0"
      channelMass channelDensity channel channelFlags channelStreamed 2 1 1 2 66 "replicate 135 0"
      "(1 / 2, 0, 0)" 22]
  note three = streamed_values_are_checked [of lineLattice channelCollideStale "replicate 135 0"
      channelMass channelDensity channel channelFlags channelStreamed 2 1 1 2 66 "replicate 135 0"
      "(1 / 2, 0, 0)" 22]
  have a: "0 \<le> channelCollide ! 64 \<and> 0 \<le> channelStreamed ! 67"
    using one channel_run channel_membership channel_inj f q channel_reconstructed
    by (simp add: channel_slots)
  have b: "0 \<le> channelCollide ! 71"
    using two channel_run channel_membership channel_inj f q
    by (simp add: channel_slots)
  have c: "streamDirection lineLattice channelCollideStale channel 2 1 1 66 2 (replicate 135 0)
       = Inl AssertionFailed"
    using three stale by (simp add: channel_slots channelCollideStale_def)
  have "doStreaming lineLattice channelCollideStale (replicate 135 0) channelMass channelDensity
        channel channelFlags = Inl AssertionFailed
      \<or> doStreaming lineLattice channelCollideStale (replicate 135 0) channelMass channelDensity
        channel channelFlags = Inl OutOfRange"
    using three channel_membership channel_inj f q stale by (simp add: channel_slots)
  then have d: "doStreaming lineLattice channelCollideStale (replicate 135 0) channelMass
        channelDensity channel channelFlags = Inl AssertionFailed"
    by (simp add: channel_stale_run)
  from a b c d stale show ?thesis by simp
qed

text \<open>The claim as stated fails on the channel with the stale collide field: direction
  2 of the INTERFACE cell (2,1,1) is reconstructed, its streamed value comes from the
  EMPTY cell and is negative, and \<open>doStreaming\<close> fails the assertion on a value that the
  reconstruction would have overwritten.\<close>

theorem overwritten_value_is_checked_counterexample:
  "flagOf lineLattice channel channelFlags (2, 1, 1) = INTERFACE
   \<and> reconstructed lineLattice channelCollideStale channelMass channelDensity channel
        channelFlags (2, 1, 1) 2
   \<and> channelCollideStale ! nat (upstreamSlot lineLattice channel (2, 1, 1) 2) = - 1
   \<and> doStreaming lineLattice channelCollideStale (replicate 135 0) channelMass channelDensity
        channel channelFlags = Inl AssertionFailed"
proof -
  have "reconstructs lineLattice channelCollideStale channelMass channelDensity channel
          channelFlags (2, 1, 1) (Suc 0)"
    by (simp add: reconstructs_def stream_eval)
  then have "reconstructed lineLattice channelCollideStale channelMass channelDensity channel
        channelFlags (2, 1, 1) 2"
    by (simp add: reconstructed_def lineLattice_simps lineInverse_def bex_lessThan_3)
  moreover have "channelCollideStale ! nat (upstreamSlot lineLattice channel (2, 1, 1) 2) = - 1"
    by (simp add: channel_slots channelCollideStale_def nth_append)
  ultimately show ?thesis using channel_interface channel_stale_run by simp
qed

lemma reconstructs_iff:
  assumes "0 \<le> indexForCell E (x + vx) (y + vy) (z + vz) len"
    and "indexForCell E (x + vx) (y + vy) (z + vz) len < int (length flagField)"
    and "LATTICEVELOCITIES E i = (vx, vy, vz)"
    and "computeSurfaceNormal E collideField dens flagField len ms (x, y, z) = (n0, n1, n2)"
  shows "reconstructs E collideField ms dens len flagField (x, y, z) i \<longleftrightarrow>
           flagField ! nat (indexForCell E (x + vx) (y + vy) (z + vz) len) = EMPTY
           \<or> n0 * real_of_int vx + n1 * real_of_int vy + n2 * real_of_int vz > 0"
  using assms
  by (simp add: reconstructs_def needsReconstruction_def rdi_def rd_def Let_def nat_less_iff)

lemma reconstructs_differs_from_specified:
  assumes "0 \<le> indexForCell E (x + vx) (y + vy) (z + vz) len"
    and "indexForCell E (x + vx) (y + vy) (z + vz) len < int (length flagField)"
    and "flagField ! nat (indexForCell E (x + vx) (y + vy) (z + vz) len) \<noteq> EMPTY"
    and "LATTICEVELOCITIES E i = (vx, vy, vz)"
    and "computeSurfaceNormal E collideField dens flagField len ms (x, y, z) = (n0, n1, n2)"
    and "n0 * real_of_int vx + n1 * real_of_int vy + n2 * real_of_int vz \<noteq> 0"
  shows "reconstructs E collideField ms dens len flagField (x, y, z) i
           \<longleftrightarrow> \<not> specReconstructs E collideField ms dens len flagField (x, y, z) i"
  using assms
  by (auto simp: reconstructs_iff [OF assms(1,2,4,5)] specReconstructs_def)

lemma needsReconstruction_Inr:
  assumes "needsReconstruction E flagField len (n0, n1, n2) x y z i = Inr b"
    and "LATTICEVELOCITIES E i = (vx, vy, vz)"
  shows "0 \<le> indexForCell E (x + vx) (y + vy) (z + vz) len
       \<and> indexForCell E (x + vx) (y + vy) (z + vz) len < int (length flagField)
       \<and> (b \<longleftrightarrow> flagField ! nat (indexForCell E (x + vx) (y + vy) (z + vz) len) = EMPTY
                \<or> n0 * real_of_int vx + n1 * real_of_int vy + n2 * real_of_int vz > 0)"
  using assms
  by (auto simp: needsReconstruction_def rbind_eq_Inr rdi_eq_Inr Let_def)

lemma reconstruct_pass_tests:
  assumes "foldM (reconstructDirection E collideField dens flagField len normal x y z flagIndex
             fieldIndex) [0 ..< n] s = Inr t"
    and "i < n"
  shows "\<exists>b. needsReconstruction E flagField len normal x y z i = Inr b"
  using assms
proof (induction n arbitrary: t)
  case 0
  then show ?case by simp
next
  case (Suc n)
  from Suc.prems(1) obtain t1 where
    a: "foldM (reconstructDirection E collideField dens flagField len normal x y z flagIndex
             fieldIndex) [0 ..< n] s = Inr t1" and
    b: "reconstructDirection E collideField dens flagField len normal x y z flagIndex
             fieldIndex n t1 = Inr t"
    by (auto simp: foldM_snoc rbind_eq_Inr)
  show ?case
  proof (cases "i = n")
    case True
    with reconstructDirection_Inr [OF b] show ?thesis by blast
  next
    case False
    with Suc.prems(2) have "i < n" by simp
    with Suc.IH [OF a] show ?thesis by blast
  qed
qed

lemma doStreaming_interface_cell:
  assumes run: "doStreaming E collideField s0 ms dens len flagField = Inr t"
    and mem: "(x, y, z) \<in> set (cells len)"
    and inj: "inj_on (\<lambda>(x, y, z). indexForCell E x y z len) (set (cells len))"
    and itf: "flagOf E len flagField (x, y, z) = INTERFACE"
  shows "\<exists>s1 s2 s3. streamCell E collideField ms dens len flagField (x, y, z) s1 = Inr s2
           \<and> (\<forall>j<Q E. t ! nat (cellSlot E len (x, y, z) j) = s2 ! nat (cellSlot E len (x, y, z) j))
           \<and> foldM (reconstructDirection E collideField dens flagField len
                      (computeSurfaceNormal E collideField dens flagField len ms (x, y, z)) x y z
                      (indexForCell E x y z len) (indexForCell E x y z len * int (Q E)))
                 [0 ..< Q E] s3 = Inr s2"
proof -
  have act: "flagOf E len flagField (x, y, z) = FLUID \<or> flagOf E len flagField (x, y, z) = INTERFACE"
    using itf by simp
  from doStreaming_cell [OF run mem inj act] obtain s1 s2 where
    step: "streamCell E collideField ms dens len flagField (x, y, z) s1 = Inr s2" and
    fin: "\<forall>j<Q E. t ! nat (cellSlot E len (x, y, z) j) = s2 ! nat (cellSlot E len (x, y, z) j)"
    by blast
  obtain s3 where
    "(if flagField ! nat (indexForCell E x y z len) = INTERFACE
           then foldM (reconstructDirection E collideField dens flagField len
               (computeSurfaceNormal E collideField dens flagField len ms (x, y, z)) x y z
                         (indexForCell E x y z len) (indexForCell E x y z len * int (Q E))) [0 ..< Q E] s3
           else Inr s3) = Inr s2"
    using step by (auto simp: streamCell_def rbind_eq_Inr rdi_eq_Inr Let_def cong: if_cong)
  with itf have "foldM (reconstructDirection E collideField dens flagField len
               (computeSurfaceNormal E collideField dens flagField len ms (x, y, z)) x y z
                         (indexForCell E x y z len) (indexForCell E x y z len * int (Q E))) [0 ..< Q E] s3 = Inr s2"
    by (simp add: flagOf_def)
  with step fin show ?thesis by blast
qed

text \<open>
  C1, as the code has it. When \<open>doStreaming\<close> returns, for every INTERFACE cell of the
  grid and every direction \<open>i\<close>, the distribution for the inverse direction
  \<open>inverse(i)\<close> is reconstructed, \<open>feq[inverse(i)] + feq[i] - collideField[cell][i]\<close>,
  when (a) the cell adjacent in direction \<open>i\<close> is EMPTY or (b) \<open>velocity[i]\<close> itself, the
  vector of line 54, has a strictly positive dot product with the surface normal at the
  cell; otherwise it is the streamed value \<open>collideField[cell - velocity[inverse(i)]][inverse(i)]\<close>.
  The test of line 61 holds exactly in the cases (a) and (b). The inverse-direction
  table and the index function, which are not among the sources, are assumed to be
  injective on the directions, with values among the directions, and on the cells of
  the grid.
\<close>

theorem reconstruction_test_takes_velocity_i:
  assumes "doStreaming E collideField streamField ms dens len flagField = Inr streamField'"
    and "(x, y, z) \<in> set (cells len)"
    and "inj_on (\<lambda>(x, y, z). indexForCell E x y z len) (set (cells len))"
    and "flagOf E len flagField (x, y, z) = INTERFACE"
    and "i < Q E"
    and "inj_on (inverseVelocityIndex E) {..<Q E}"
    and "inverseVelocityIndex E i < Q E"
    and "LATTICEVELOCITIES E i = (vx, vy, vz)"
    and "computeSurfaceNormal E collideField dens flagField len ms (x, y, z) = (n0, n1, n2)"
    and "feq = computeFeq E 1
                 (computeVelocity E (take (Q E) (drop (nat (cellSlot E len (x, y, z) 0)) collideField))
                    (dens ! nat (indexForCell E x y z len)))"
  shows "(reconstructs E collideField ms dens len flagField (x, y, z) i \<longleftrightarrow>
            flagField ! nat (indexForCell E (x + vx) (y + vy) (z + vz) len) = EMPTY
            \<or> n0 * real_of_int vx + n1 * real_of_int vy + n2 * real_of_int vz > 0)
       \<and> streamField' ! nat (cellSlot E len (x, y, z) (inverseVelocityIndex E i))
           = (if flagField ! nat (indexForCell E (x + vx) (y + vy) (z + vz) len) = EMPTY
                 \<or> n0 * real_of_int vx + n1 * real_of_int vy + n2 * real_of_int vz > 0
              then feq (inverseVelocityIndex E i) + feq i
                     - collideField ! nat (cellSlot E len (x, y, z) i)
              else collideField ! nat (upstreamSlot E len (x, y, z) (inverseVelocityIndex E i)))"
proof -
  let ?test = "flagField ! nat (indexForCell E (x + vx) (y + vy) (z + vz) len) = EMPTY
            \<or> n0 * real_of_int vx + n1 * real_of_int vy + n2 * real_of_int vz > 0"
  let ?inv = "inverseVelocityIndex E"
  from doStreaming_interface_cell [OF assms(1-4)] obtain s1 s2 s3 where
    step: "streamCell E collideField ms dens len flagField (x, y, z) s1 = Inr s2" and
    fin: "\<forall>j<Q E. streamField' ! nat (cellSlot E len (x, y, z) j) = s2 ! nat (cellSlot E len (x, y, z) j)" and
    pass: "foldM (reconstructDirection E collideField dens flagField len
                      (computeSurfaceNormal E collideField dens flagField len ms (x, y, z)) x y z
                      (indexForCell E x y z len) (indexForCell E x y z len * int (Q E)))
                 [0 ..< Q E] s3 = Inr s2"
    by blast
  from reconstruct_pass_tests [OF pass assms(5)] obtain b where
    b: "needsReconstruction E flagField len (n0, n1, n2) x y z i = Inr b"
    unfolding assms(9) by blast
  note rng = needsReconstruction_Inr [OF b assms(8)]
  have test: "reconstructs E collideField ms dens len flagField (x, y, z) i \<longleftrightarrow> ?test"
    using rng b by (simp add: reconstructs_def assms(9))
  have fin': "streamField' ! nat (cellSlot E len (x, y, z) (?inv i))
                = s2 ! nat (cellSlot E len (x, y, z) (?inv i))"
    using fin assms(7) by simp
  have only: "i' = i" if "i' < Q E" "?inv i' = ?inv i" for i'
    using that assms(5,6) by (auto dest: inj_onD)
  show ?thesis
  proof (cases ?test)
    case True
    with test have rec: "reconstructs E collideField ms dens len flagField (x, y, z) i" by simp
    have later: "\<forall>i'<Q E. i < i' \<longrightarrow> reconstructs E collideField ms dens len flagField (x, y, z) i' \<longrightarrow>
                 ?inv i' \<noteq> ?inv i"
      using only by auto
    from streamCell_Inr [OF step] assms(4,5) rec later
    have "s2 ! nat (cellSlot E len (x, y, z) (?inv i))
              = reconstructedValue E (take (Q E) (drop (nat (cellSlot E len (x, y, z) 0)) collideField))
                  (dens ! nat (indexForCell E x y z len))
                  (collideField ! nat (cellSlot E len (x, y, z) i)) i"
      by blast
    with fin' True test show ?thesis
      by (simp add: reconstructedValue_def assms(10) Let_def)
  next
    case False
    with test have nrec: "\<not> reconstructs E collideField ms dens len flagField (x, y, z) i" by simp
    have "\<not> reconstructed E collideField ms dens len flagField (x, y, z) (?inv i)"
      using nrec only by (auto simp: reconstructed_def)
    with streamCell_Inr [OF step] assms(4,7)
    have "s2 ! nat (cellSlot E len (x, y, z) (?inv i))
            = collideField ! nat (upstreamSlot E len (x, y, z) (?inv i))"
      by blast
    with fin' False test show ?thesis by simp
  qed
qed

text \<open>The INTERFACE cell (2,1,1) of the channel, with the normal \<open>(1/2, 0, 0)\<close>: direction
  1 points to the EMPTY cell and slot 68, its inverse, is reconstructed; direction 2,
  with velocity \<open>(-1, 0, 0)\<close>, points to the FLUID cell and has the dot product -1/2, and
  slot 67, its inverse, holds the streamed value of slot 64.\<close>

theorem reconstruction_test_takes_velocity_i_witness:
  "doStreaming lineLattice channelCollide (replicate 135 0) channelMass channelDensity channel
     channelFlags = Inr channelStreamed
   \<and> LATTICEVELOCITIES lineLattice 1 = (1, 0, 0)
   \<and> channelFlags ! nat (indexForCell lineLattice (2 + 1) (1 + 0) (1 + 0) channel) = EMPTY
   \<and> channelStreamed ! 68
       = lineFeq 1 (1 / 10, 0, 0) 2 + lineFeq 1 (1 / 10, 0, 0) 1 - channelCollide ! 67
   \<and> LATTICEVELOCITIES lineLattice 2 = (- 1, 0, 0)
   \<and> channelFlags ! nat (indexForCell lineLattice (2 + - 1) (1 + 0) (1 + 0) channel) = FLUID
   \<and> computeSurfaceNormal lineLattice channelCollide channelDensity channelFlags channel
        channelMass (2, 1, 1) = (1 / 2, 0, 0)
   \<and> channelStreamed ! 67 = channelCollide ! 64"
proof -
  have q1: "Suc 0 < Q lineLattice" and q2: "2 < Q lineLattice"
    by (simp_all add: lineLattice_simps)
  have i1: "inverseVelocityIndex lineLattice (Suc 0) < Q lineLattice"
    and i2: "inverseVelocityIndex lineLattice 2 < Q lineLattice"
    by (simp_all add: lineLattice_simps lineInverse_def)
  have v1: "LATTICEVELOCITIES lineLattice (Suc 0) = (1, 0, 0)"
    and v2: "LATTICEVELOCITIES lineLattice 2 = (- 1, 0, 0)"
    by (simp_all add: lineLattice_simps lineVelocities_def)
  have n: "computeSurfaceNormal lineLattice channelCollide channelDensity channelFlags channel
        channelMass (2, 1, 1) = (1 / 2, 0, 0)"
    by (simp add: stream_eval)
  have feq: "lineFeq 1 (1 / 10, 0, 0)
      = computeFeq lineLattice 1
          (computeVelocity lineLattice
             (take (Q lineLattice) (drop (nat (cellSlot lineLattice channel (2, 1, 1) 0)) channelCollide))
             (channelDensity ! nat (indexForCell lineLattice 2 1 1 channel)))"
    by (simp add: channel_slots channel_index)
       (simp add: lineLattice_simps channelCollide_def channelDensity_def momentVelocity_def)
  have e: "channelFlags ! nat (indexForCell lineLattice (2 + 1) (1 + 0) (1 + 0) channel) = EMPTY"
    and f: "channelFlags ! nat (indexForCell lineLattice (2 + - 1) (1 + 0) (1 + 0) channel) = FLUID"
    by (simp_all add: stream_eval)
  note a = reconstruction_test_takes_velocity_i [OF channel_run channel_membership channel_inj
      channel_interface q1 lineInverse_inj i1 v1 n feq]
  note b = reconstruction_test_takes_velocity_i [OF channel_run channel_membership channel_inj
      channel_interface q2 lineInverse_inj i2 v2 n feq]
  have "channelStreamed ! 68
       = lineFeq 1 (1 / 10, 0, 0) 2 + lineFeq 1 (1 / 10, 0, 0) 1 - channelCollide ! 67"
    using a e by (simp add: channel_slots lineLattice_simps lineInverse_def)
  moreover have "channelStreamed ! 67 = channelCollide ! 64"
    using b f by (simp add: channel_slots lineLattice_simps lineInverse_def)
  ultimately show ?thesis using channel_run v1 v2 e f n by simp
qed

text \<open>
  The claim as stated, with the negation of \<open>velocity[i]\<close>, fails on the channel. At the
  INTERFACE cell (2,1,1) the normal is \<open>(1/2, 0, 0)\<close>. For direction 2, with velocity
  \<open>(-1, 0, 0)\<close>, the adjacent cell is FLUID and the negated velocity has the positive dot
  product 1/2 with the normal, so the test as stated holds; the code takes
  \<open>LATTICEVELOCITIES[i]\<close>, finds -1/2 and does not reconstruct: direction 1, the inverse
  of 2, keeps the streamed value of slot 64 instead of the reconstructed one.
\<close>

theorem inverse_velocity_test_counterexample:
  "flagOf lineLattice channel channelFlags (2, 1, 1) = INTERFACE
   \<and> specReconstructs lineLattice channelCollide channelMass channelDensity channel
        channelFlags (2, 1, 1) 2
   \<and> \<not> reconstructs lineLattice channelCollide channelMass channelDensity channel
        channelFlags (2, 1, 1) 2
   \<and> inverseVelocityIndex lineLattice 2 = 1
   \<and> doStreaming lineLattice channelCollide (replicate 135 0) channelMass channelDensity channel
        channelFlags = Inr channelStreamed
   \<and> channelStreamed ! 67 = channelCollide ! 64
   \<and> channelStreamed ! 67 \<noteq>
       lineFeq 1 (1 / 10, 0, 0) 1 + lineFeq 1 (1 / 10, 0, 0) 2 - channelCollide ! 68"
proof -
  have "specReconstructs lineLattice channelCollide channelMass channelDensity channel
        channelFlags (2, 1, 1) 2"
    by (simp add: specReconstructs_def stream_eval)
  moreover have "channelStreamed ! 67 = channelCollide ! 64"
    by (simp add: channelStreamed_def channelCollide_def nth_append)
  moreover have "channelStreamed ! 67 \<noteq>
       lineFeq 1 (1 / 10, 0, 0) 1 + lineFeq 1 (1 / 10, 0, 0) 2 - channelCollide ! 68"
    by (simp add: channelStreamed_def channelCollide_def nth_append lineFeq_def lineWeight_def
        lineVelocities_def)
  ultimately show ?thesis
    using channel_interface channel_reconstructs(2) channel_run
    by (simp add: lineLattice_simps lineInverse_def)
qed

end
